theory Spec2Isabelle
  imports Complex_Main "HOL-Library.Monad_Syntax"
begin

section \<open>Numbers and arrays of the TypeScript sources\<close>

text \<open>
  A TypeScript \<open>number\<close> that is known to be an ordinary finite value is a \<^typ>\<open>real\<close>:
  arithmetic is exact, the rounding of IEEE doubles is not part of the model. A
  \<open>number\<close> that the program computes, and that may therefore be \<open>NaN\<close> (or the
  \<open>undefined\<close> read from an array out of range, which every arithmetic operator turns
  into \<open>NaN\<close> and every comparison answers with \<open>false\<close>), is a \<open>real option\<close>
  with \<open>None\<close> for \<open>NaN\<close>/\<open>undefined\<close>.
\<close>

type_synonym number = "real option"

text \<open>\<open>xs[i]\<close>: \<open>undefined\<close> when \<open>i\<close> is not an index of the array.\<close>

definition js_index :: "'a list \<Rightarrow> int \<Rightarrow> 'a option" where
  "js_index xs i = (if 0 \<le> i \<and> i < int (length xs) then Some (xs ! nat i) else None)"

text \<open>The same read on an array whose elements may themselves be \<open>NaN\<close>.\<close>

definition js_get :: "number list \<Rightarrow> int \<Rightarrow> number" where
  "js_get xs i = Option.bind (js_index xs i) (\<lambda>v. v)"

text \<open>Comparisons: \<open>false\<close> as soon as one side is \<open>NaN\<close> or \<open>undefined\<close>.\<close>

definition js_le :: "number \<Rightarrow> number \<Rightarrow> bool" where
  "js_le a b = (case (a, b) of (Some x, Some y) \<Rightarrow> x \<le> y | _ \<Rightarrow> False)"

definition js_ge :: "number \<Rightarrow> number \<Rightarrow> bool" where
  "js_ge a b = (case (a, b) of (Some x, Some y) \<Rightarrow> x \<ge> y | _ \<Rightarrow> False)"

definition js_gt :: "number \<Rightarrow> number \<Rightarrow> bool" where
  "js_gt a b = (case (a, b) of (Some x, Some y) \<Rightarrow> x > y | _ \<Rightarrow> False)"

text \<open>\<open>Array.prototype.findIndex\<close>: the first index whose element satisfies the
  predicate, \<open>-1\<close> when there is none.\<close>

fun findIndex :: "('a \<Rightarrow> bool) \<Rightarrow> 'a list \<Rightarrow> int" where
  "findIndex P [] = -1"
| "findIndex P (x # xs) =
     (if P x then 0 else (let r = findIndex P xs in if r = -1 then -1 else r + 1))"

section \<open>utils/color: Kubelka-Munk transform\<close>

text \<open>
  \<^verbatim>\<open>
  export const RtoKS = (R: number): number => {
      const rNorm = Math.max(0.001, Math.min(0.999, R));
      return Math.pow(1 - rNorm, 2) / (2 * rNorm);
  };
  export const KStoR = (KS: number): number => {
      return 1 + KS - Math.sqrt(Math.pow(KS, 2) + 2 * KS);
  };
  \<close>
  \<open>rNorm\<close> is at least \<open>0.001\<close>, so the division in \<open>RtoKS\<close> is never by zero.
  \<open>Math.sqrt\<close> of a negative number is \<open>NaN\<close>.
\<close>

definition RtoKS :: "real \<Rightarrow> real" where
  "RtoKS R = (let rNorm = max 0.001 (min 0.999 R) in (1 - rNorm)\<^sup>2 / (2 * rNorm))"

definition js_sqrt :: "real \<Rightarrow> number" where
  "js_sqrt x = (if x < 0 then None else Some (sqrt x))"

definition KStoR :: "real \<Rightarrow> number" where
  "KStoR KS = map_option (\<lambda>s. 1 + KS - s) (js_sqrt (KS\<^sup>2 + 2 * KS))"

text \<open>Both functions applied to a value that may be \<open>NaN\<close>: \<open>Math.min\<close>,
  \<open>Math.max\<close>, \<open>Math.pow\<close> and the arithmetic operators all propagate it.\<close>

definition RtoKS_num :: "number \<Rightarrow> number" where
  "RtoKS_num R = map_option RtoKS R"

definition KStoR_num :: "number \<Rightarrow> number" where
  "KStoR_num KS = Option.bind KS KStoR"

section \<open>utils/color: colour-matching table and interpolation\<close>

text \<open>\<open>cmfData\<close>: D65 illuminant and CIE 1931 2-degree observer, every 10 nm from 400
  to 700, a \<open>Record<number, ...>\<close> read by key.\<close>

record cmf =
  cmf_x :: real
  cmf_y :: real
  cmf_z :: real
  cmf_d65 :: real

definition cmfTable :: "(int \<times> cmf) list" where
  "cmfTable =
    [
     (400, \<lparr>cmf_x = 0.0143, cmf_y = 0.0004, cmf_z = 0.0679, cmf_d65 = 82.75\<rparr>),
     (410, \<lparr>cmf_x = 0.0435, cmf_y = 0.0012, cmf_z = 0.2074, cmf_d65 = 91.49\<rparr>),
     (420, \<lparr>cmf_x = 0.1344, cmf_y = 0.0040, cmf_z = 0.6456, cmf_d65 = 93.43\<rparr>),
     (430, \<lparr>cmf_x = 0.2839, cmf_y = 0.0116, cmf_z = 1.3856, cmf_d65 = 86.68\<rparr>),
     (440, \<lparr>cmf_x = 0.3483, cmf_y = 0.0230, cmf_z = 1.7471, cmf_d65 = 104.86\<rparr>),
     (450, \<lparr>cmf_x = 0.3362, cmf_y = 0.0380, cmf_z = 1.7721, cmf_d65 = 117.01\<rparr>),
     (460, \<lparr>cmf_x = 0.2908, cmf_y = 0.0600, cmf_z = 1.6692, cmf_d65 = 117.81\<rparr>),
     (470, \<lparr>cmf_x = 0.1954, cmf_y = 0.0910, cmf_z = 1.2876, cmf_d65 = 114.86\<rparr>),
     (480, \<lparr>cmf_x = 0.0956, cmf_y = 0.1390, cmf_z = 0.8130, cmf_d65 = 115.92\<rparr>),
     (490, \<lparr>cmf_x = 0.0320, cmf_y = 0.2080, cmf_z = 0.4652, cmf_d65 = 108.81\<rparr>),
     (500, \<lparr>cmf_x = 0.0049, cmf_y = 0.3230, cmf_z = 0.2720, cmf_d65 = 109.35\<rparr>),
     (510, \<lparr>cmf_x = 0.0093, cmf_y = 0.5030, cmf_z = 0.1582, cmf_d65 = 107.80\<rparr>),
     (520, \<lparr>cmf_x = 0.0633, cmf_y = 0.7100, cmf_z = 0.0782, cmf_d65 = 104.79\<rparr>),
     (530, \<lparr>cmf_x = 0.1655, cmf_y = 0.8620, cmf_z = 0.0422, cmf_d65 = 107.69\<rparr>),
     (540, \<lparr>cmf_x = 0.2904, cmf_y = 0.9540, cmf_z = 0.0203, cmf_d65 = 104.41\<rparr>),
     (550, \<lparr>cmf_x = 0.4334, cmf_y = 0.9950, cmf_z = 0.0087, cmf_d65 = 104.05\<rparr>),
     (560, \<lparr>cmf_x = 0.5945, cmf_y = 0.9950, cmf_z = 0.0039, cmf_d65 = 100.00\<rparr>),
     (570, \<lparr>cmf_x = 0.7621, cmf_y = 0.9520, cmf_z = 0.0021, cmf_d65 = 96.33\<rparr>),
     (580, \<lparr>cmf_x = 0.9163, cmf_y = 0.8700, cmf_z = 0.0017, cmf_d65 = 95.79\<rparr>),
     (590, \<lparr>cmf_x = 1.0263, cmf_y = 0.7570, cmf_z = 0.0011, cmf_d65 = 88.69\<rparr>),
     (600, \<lparr>cmf_x = 1.0622, cmf_y = 0.6310, cmf_z = 0.0008, cmf_d65 = 90.01\<rparr>),
     (610, \<lparr>cmf_x = 1.0026, cmf_y = 0.5030, cmf_z = 0.0003, cmf_d65 = 89.60\<rparr>),
     (620, \<lparr>cmf_x = 0.8544, cmf_y = 0.3810, cmf_z = 0.0002, cmf_d65 = 87.70\<rparr>),
     (630, \<lparr>cmf_x = 0.6424, cmf_y = 0.2650, cmf_z = 0.0000, cmf_d65 = 83.29\<rparr>),
     (640, \<lparr>cmf_x = 0.4479, cmf_y = 0.1750, cmf_z = 0.0000, cmf_d65 = 83.70\<rparr>),
     (650, \<lparr>cmf_x = 0.2835, cmf_y = 0.1070, cmf_z = 0.0000, cmf_d65 = 80.03\<rparr>),
     (660, \<lparr>cmf_x = 0.1649, cmf_y = 0.0610, cmf_z = 0.0000, cmf_d65 = 80.21\<rparr>),
     (670, \<lparr>cmf_x = 0.0874, cmf_y = 0.0320, cmf_z = 0.0000, cmf_d65 = 82.28\<rparr>),
     (680, \<lparr>cmf_x = 0.0468, cmf_y = 0.0170, cmf_z = 0.0000, cmf_d65 = 78.28\<rparr>),
     (690, \<lparr>cmf_x = 0.0227, cmf_y = 0.0082, cmf_z = 0.0000, cmf_d65 = 69.72\<rparr>),
     (700, \<lparr>cmf_x = 0.0114, cmf_y = 0.0041, cmf_z = 0.0000, cmf_d65 = 71.61\<rparr>)
    ]"

definition cmfData :: "int \<Rightarrow> cmf option" where
  "cmfData nm = map_of cmfTable nm"

text \<open>
  \<^verbatim>\<open>
  const interpolate = (lambda: number[], values: number[], target: number): number => {
      if (target <= lambda[0]) return values[0];
      if (target >= lambda[lambda.length - 1]) return values[values.length - 1];
      const idx = lambda.findIndex(l => l >= target);
      if (idx === -1) return 0;
      const x0 = lambda[idx - 1];
      const x1 = lambda[idx];
      const y0 = values[idx - 1];
      const y1 = values[idx];
      return y0 + (y1 - y0) * ((target - x0) / (x1 - x0));
  };
  \<close>
  The wavelengths are finite numbers; the values may hold \<open>NaN\<close>. There is no
  \<open>throw\<close> on any path. On an empty \<open>lambda\<close> both comparisons are against
  \<open>undefined\<close> and fail, \<open>findIndex\<close> answers \<open>-1\<close> and the function returns
  \<open>0\<close>. Where the last line is reached, \<open>idx\<close> is the first index with
  \<open>lambda[idx] >= target\<close> and it is not \<open>0\<close>, so \<open>x0 < target \<le> x1\<close> and the
  division is not by zero (lemma \<open>interpolate_mid\<close> below).
\<close>

definition interpolate :: "real list \<Rightarrow> number list \<Rightarrow> real \<Rightarrow> number" where
  "interpolate lambda values target =
    (if js_le (Some target) (js_index lambda 0) then js_get values 0
     else if js_ge (Some target) (js_index lambda (int (length lambda) - 1))
       then js_get values (int (length values) - 1)
     else
       (let idx = findIndex (\<lambda>l. l \<ge> target) lambda in
        if idx = -1 then Some 0
        else do {
          x0 \<leftarrow> js_index lambda (idx - 1);
          x1 \<leftarrow> js_index lambda idx;
          y0 \<leftarrow> js_get values (idx - 1);
          y1 \<leftarrow> js_get values idx;
          Some (y0 + (y1 - y0) * ((target - x0) / (x1 - x0)))
        }))"

section \<open>utils/color: reflectance to colour\<close>

text \<open>The accumulators \<open>X\<close>, \<open>Y\<close>, \<open>Z\<close>, \<open>N\<close> of the integration loop.\<close>

record accum =
  sumX :: number
  sumY :: number
  sumZ :: number
  sumN :: real

definition js_add :: "number \<Rightarrow> number \<Rightarrow> number" where
  "js_add a b = do { x \<leftarrow> a; y \<leftarrow> b; Some (x + y) }"

text \<open>\<open>const rFactor = rVal > 1 ? rVal / 100 : rVal\<close>\<close>

definition rFactor_of :: "number \<Rightarrow> number" where
  "rFactor_of rVal = (if js_gt rVal (Some 1) then map_option (\<lambda>v. v / 100) rVal else rVal)"

text \<open>One pass of the loop body at wavelength \<open>nm\<close>.\<close>

definition color_step :: "real list \<Rightarrow> number list \<Rightarrow> int \<Rightarrow> accum \<Rightarrow> accum" where
  "color_step lambda R nm s =
    (let rVal = interpolate lambda R (real_of_int nm);
         rFactor = rFactor_of rVal
     in case cmfData nm of
          None \<Rightarrow> s
        | Some props \<Rightarrow>
            \<lparr>sumX = js_add (sumX s) (map_option (\<lambda>r. r * cmf_d65 props * cmf_x props) rFactor),
             sumY = js_add (sumY s) (map_option (\<lambda>r. r * cmf_d65 props * cmf_y props) rFactor),
             sumZ = js_add (sumZ s) (map_option (\<lambda>r. r * cmf_d65 props * cmf_z props) rFactor),
             sumN = sumN s + cmf_d65 props * cmf_y props\<rparr>)"

text \<open>\<open>for (let nm = 400; nm <= 700; nm += 10) { ... }\<close>. Every pass finds its
  wavelength in the table and adds a positive amount to \<open>N\<close>, so the division by \<open>N\<close>
  after the loop is not by zero (lemma \<open>color_loop_N_pos\<close> below).\<close>

function color_loop :: "real list \<Rightarrow> number list \<Rightarrow> int \<Rightarrow> accum \<Rightarrow> accum" where
  "color_loop lambda R nm s =
    (if nm \<le> 700 then color_loop lambda R (nm + 10) (color_step lambda R nm s) else s)"
  by pat_completeness auto
termination
  by (relation "measure (\<lambda>(lambda, R, nm, s). nat (701 - nm))") auto

declare color_loop.simps [simp del]

text \<open>\<open>const f = (val) => val > 0.008856 ? Math.pow(val, 1/3) : (7.787 * val) + (16/116)\<close>\<close>

definition lab_f :: "real \<Rightarrow> real" where
  "lab_f val = (if val > 0.008856 then val powr (1 / 3) else 7.787 * val + 16 / 116)"

text \<open>\<open>const gammaCorrect = (c) => c <= 0.0031308 ? 12.92 * c : 1.055 * Math.pow(c, 1/2.4) - 0.055\<close>\<close>

definition gammaCorrect :: "real \<Rightarrow> real" where
  "gammaCorrect c = (if c \<le> 0.0031308 then 12.92 * c else 1.055 * c powr (1 / 2.4) - 0.055)"

text \<open>\<open>Math.min(Math.max(r, 0), 1) * 255\<close>\<close>

definition clamp255 :: "real \<Rightarrow> real" where
  "clamp255 r = min (max r 0) 1 * 255"

text \<open>\<open>Number.prototype.toString(16)\<close> on a non-negative integer, and
  \<open>padStart(2, '0')\<close>.\<close>

definition hexDigit :: "nat \<Rightarrow> char" where
  "hexDigit d = ''0123456789abcdef'' ! (d mod 16)"

fun toString16 :: "nat \<Rightarrow> string" where
  "toString16 n = (if n < 16 then [hexDigit n] else toString16 (n div 16) @ [hexDigit (n mod 16)])"

declare toString16.simps [simp del]

definition padStart2 :: "string \<Rightarrow> string" where
  "padStart2 s = replicate (2 - length s) CHR ''0'' @ s"

text \<open>\<open>const toHex = (n) => Math.round(n).toString(16).padStart(2, '0')\<close>.
  \<open>Math.round\<close> rounds to the nearest integer, halves upwards; \<open>NaN\<close> prints as
  \<open>NaN\<close>.\<close>

definition toHex :: "number \<Rightarrow> string" where
  "toHex n =
    (case n of
       None \<Rightarrow> ''NaN''
     | Some v \<Rightarrow>
         (let k = \<lfloor>v + 1 / 2\<rfloor>
          in padStart2 (if k < 0 then CHR ''-'' # toString16 (nat (- k)) else toString16 (nat k))))"

record ColorResult =
  xyz_x :: number
  xyz_y :: number
  xyz_z :: number
  lab_l :: number
  lab_a :: number
  lab_b :: number
  rgb :: string

definition reflectanceToColor :: "real list \<Rightarrow> number list \<Rightarrow> ColorResult" where
  "reflectanceToColor lambda R =
    (let s = color_loop lambda R 400 \<lparr>sumX = Some 0, sumY = Some 0, sumZ = Some 0, sumN = 0\<rparr>;
         N = sumN s;
         X = map_option (\<lambda>v. (v / N) * 100) (sumX s);
         Y = map_option (\<lambda>v. (v / N) * 100) (sumY s);
         Z = map_option (\<lambda>v. (v / N) * 100) (sumZ s);
         refX = 95.047; refY = 100.000; refZ = 108.883;
         L = do { y \<leftarrow> Y; Some (116 * lab_f (y / refY) - 16) };
         a = do { x \<leftarrow> X; y \<leftarrow> Y; Some (500 * (lab_f (x / refX) - lab_f (y / refY))) };
         b = do { y \<leftarrow> Y; z \<leftarrow> Z; Some (200 * (lab_f (y / refY) - lab_f (z / refZ))) };
         r = do { x \<leftarrow> X; y \<leftarrow> Y; z \<leftarrow> Z;
                  Some ((x * 3.2406 + y * (- 1.5372) + z * (- 0.4986)) / 100) };
         g = do { x \<leftarrow> X; y \<leftarrow> Y; z \<leftarrow> Z;
                  Some ((x * (- 0.9689) + y * 1.8758 + z * 0.0415) / 100) };
         bl = do { x \<leftarrow> X; y \<leftarrow> Y; z \<leftarrow> Z;
                   Some ((x * 0.0557 + y * (- 0.2040) + z * 1.0570) / 100) };
         r' = map_option (\<lambda>c. clamp255 (gammaCorrect c)) r;
         g' = map_option (\<lambda>c. clamp255 (gammaCorrect c)) g;
         bl' = map_option (\<lambda>c. clamp255 (gammaCorrect c)) bl
     in \<lparr>xyz_x = X, xyz_y = Y, xyz_z = Z, lab_l = L, lab_a = a, lab_b = b,
         rgb = CHR ''#'' # toHex r' @ toHex g' @ toHex bl'\<rparr>)"

section \<open>types: stored spectra and results\<close>

text \<open>\<open>ProcessedData\<close>, with the one field of \<open>meta\<close> that the analysis reads
  (\<open>name?: string\<close>) and the four arrays of \<open>data\<close>.\<close>

record ProcessedData =
  meta_name :: "string option"
  data_lambda :: "real list"
  data_I_corr :: "real list"
  data_T :: "real list"
  data_A :: "real list"

record component =
  name :: string
  concentration :: real
  contribution :: real

record metrics =
  rmse :: real
  residual_norm :: real

record chart_data =
  cd_lambda :: "real list"
  cd_original :: "real list"
  cd_fitted :: "real list"
  cd_residual :: "number list"

record ConcentrationResult =
  components :: "component list"
  metrics :: metrics
  chart_data :: chart_data

record FabricParams =
  fabricType :: string
  weight :: real
  liquorRatio :: number
  exhaustionRate :: number

section \<open>services/api (local mock): analyzeConcentration\<close>

text \<open>
  The record store is the JSON object kept in \<open>localStorage\<close> under
  \<open>spectral_app_data\<close>, a dictionary from file names to \<open>ProcessedData\<close>.
  \<open>Math.random()\<close> is a source of numbers in \<open>[0, 1)\<close>; the model passes the
  sequence of values it is going to return explicitly, and each call takes the next one.
\<close>

type_synonym storage = "string \<rightharpoonup> ProcessedData"

type_synonym rng = "nat \<Rightarrow> real"

definition random :: "rng \<Rightarrow> real \<times> rng" where
  "random g = (g 0, \<lambda>n. g (Suc n))"

text \<open>The only \<open>throw\<close> of \<open>analyzeConcentration\<close>: the sample is not in the store.\<close>

datatype error = SampleDataLost

text \<open>\<open>std?.meta.name || fname\<close>: the file name when the standard is not in the
  store, or has no name, or an empty one.\<close>

definition display_name :: "storage \<Rightarrow> string \<Rightarrow> string" where
  "display_name db fname =
    (case db fname of
       None \<Rightarrow> fname
     | Some std \<Rightarrow> (case meta_name std of None \<Rightarrow> fname | Some n \<Rightarrow> if n = [] then fname else n))"

text \<open>
  \<^verbatim>\<open>
  const components = standardFilenames.map(fname => {
      const std = db[fname];
      const conc = 0.1 + Math.random() * 0.7;
      return { name: std?.meta.name || fname, concentration: conc, contribution: 0 };
  });
  \<close>
\<close>

fun make_components :: "storage \<Rightarrow> string list \<Rightarrow> rng \<Rightarrow> component list \<times> rng" where
  "make_components db [] g = ([], g)"
| "make_components db (fname # fnames) g =
    (let (u, g1) = random g;
         conc = 0.1 + u * 0.7;
         c = \<lparr>name = display_name db fname, concentration = conc, contribution = 0\<rparr>;
         (cs, g2) = make_components db fnames g1
     in (c # cs, g2))"

text \<open>\<open>components.reduce((acc, c) => acc + c.concentration, 0)\<close>\<close>

definition totalConc_of :: "component list \<Rightarrow> real" where
  "totalConc_of cs = foldl (\<lambda>acc c. acc + concentration c) 0 cs"

text \<open>\<open>components.forEach(c => c.contribution = totalConc > 0 ? (c.concentration / totalConc) * 100 : 0)\<close>\<close>

definition set_contributions :: "real \<Rightarrow> component list \<Rightarrow> component list" where
  "set_contributions totalConc cs =
    map (\<lambda>c. c\<lparr>contribution := (if totalConc > 0 then (concentration c / totalConc) * 100 else 0)\<rparr>) cs"

text \<open>\<open>original.map((v) => v * (0.96 + Math.random() * 0.08))\<close>\<close>

fun make_fitted :: "real list \<Rightarrow> rng \<Rightarrow> real list \<times> rng" where
  "make_fitted [] g = ([], g)"
| "make_fitted (v # vs) g =
    (let (u, g1) = random g;
         (fs, g2) = make_fitted vs g1
     in (v * (0.96 + u * 0.08) # fs, g2))"

text \<open>\<open>original.map((v, i) => v - fitted[i])\<close>, with \<open>NaN\<close> where \<open>fitted\<close> has no
  index \<open>i\<close> (it never happens: \<open>fitted\<close> is as long as \<open>original\<close>).\<close>

definition make_residual :: "real list \<Rightarrow> real list \<Rightarrow> number list" where
  "make_residual original fitted =
    map (\<lambda>(v, i). map_option (\<lambda>f. v - f) (js_index fitted (int i)))
        (zip original [0 ..< length original])"

definition analyzeConcentration ::
  "storage \<Rightarrow> rng \<Rightarrow> string \<Rightarrow> string list \<Rightarrow> error + (ConcentrationResult \<times> rng)" where
  "analyzeConcentration db g sampleFilename standardFilenames =
    (case db sampleFilename of
       None \<Rightarrow> Inl SampleDataLost
     | Some sample \<Rightarrow>
        (let (comps, g1) = make_components db standardFilenames g;
             totalConc = totalConc_of comps;
             comps' = set_contributions totalConc comps;
             original = data_A sample;
             (fitted, g2) = make_fitted original g1;
             residual = make_residual original fitted;
             (u1, g3) = random g2;
             (u2, g4) = random g3
         in Inr (\<lparr>components = comps',
                  metrics = \<lparr>rmse = 0.0012 + u1 * 0.0008, residual_norm = 0.015 + u2 * 0.005\<rparr>,
                  chart_data = \<lparr>cd_lambda = data_lambda sample, cd_original = original,
                                cd_fitted = fitted, cd_residual = residual\<rparr>\<rparr>, g4)))"

section \<open>PredictionPanel: the real-time prediction\<close>

text \<open>
  \<^verbatim>\<open>
  const prediction = useMemo(() => {
      if (!baseData) return null;
      const { lambda, fitted } = baseData.chart_data;
      const baselineExhaustion = 70;
      const baselineRatio = 10;
      const ratio = params.liquorRatio || 1;
      const depthFactor = (params.exhaustionRate / baselineExhaustion) * (baselineRatio / ratio);
      const newR: number[] = [];
      const ksCurve: number[] = [];
      for (let i = 0; i < lambda.length; i++) {
          let R = fitted[i];
          if(R <= 0.001) R = 0.001;
          if(R >= 0.999) R = 0.999;
          const ks = RtoKS(R);
          const newKs = ks * depthFactor;
          ksCurve.push(newKs);
          newR.push(KStoR(newKs));
      }
      const color = reflectanceToColor(lambda, newR);
      return { rCurve: newR, ksCurve, color, depthFactor };
  }, [baseData, params]);
  \<close>
\<close>

text \<open>\<open>params.liquorRatio || 1\<close>: \<open>0\<close> and \<open>NaN\<close> are falsy.\<close>

definition ratio_of :: "number \<Rightarrow> real" where
  "ratio_of lr = (case lr of None \<Rightarrow> 1 | Some r \<Rightarrow> if r = 0 then 1 else r)"

definition depthFactor_of :: "FabricParams \<Rightarrow> number" where
  "depthFactor_of params =
    (let baselineExhaustion = 70;
         baselineRatio = 10;
         ratio = ratio_of (liquorRatio params)
     in map_option (\<lambda>e. (e / baselineExhaustion) * (baselineRatio / ratio)) (exhaustionRate params))"

definition js_mul :: "number \<Rightarrow> number \<Rightarrow> number" where
  "js_mul a b = do { x \<leftarrow> a; y \<leftarrow> b; Some (x * y) }"

text \<open>\<open>if(R <= 0.001) R = 0.001; if(R >= 0.999) R = 0.999;\<close>\<close>

definition clampR :: "number \<Rightarrow> number" where
  "clampR R =
    (let R1 = (if js_le R (Some 0.001) then Some 0.001 else R)
     in if js_ge R1 (Some 0.999) then Some 0.999 else R1)"

function predict_loop ::
  "real list \<Rightarrow> real list \<Rightarrow> number \<Rightarrow> nat \<Rightarrow> number list \<times> number list
    \<Rightarrow> number list \<times> number list" where
  "predict_loop lambda fitted depthFactor i (newR, ksCurve) =
    (if i < length lambda then
       (let R = clampR (js_index fitted (int i));
            ks = RtoKS_num R;
            newKs = js_mul ks depthFactor
        in predict_loop lambda fitted depthFactor (i + 1)
             (newR @ [KStoR_num newKs], ksCurve @ [newKs]))
     else (newR, ksCurve))"
  by pat_completeness auto
termination
  by (relation "measure (\<lambda>(lambda, fitted, depthFactor, i, acc). length lambda - i)") auto

declare predict_loop.simps [simp del]

record Prediction =
  rCurve :: "number list"
  ksCurve :: "number list"
  color :: ColorResult
  depthFactor :: number

definition prediction :: "ConcentrationResult option \<Rightarrow> FabricParams \<Rightarrow> Prediction option" where
  "prediction baseData params =
    (case baseData of
       None \<Rightarrow> None
     | Some base \<Rightarrow>
        (let lambda = cd_lambda (chart_data base);
             fitted = cd_fitted (chart_data base);
             df = depthFactor_of params;
             (newR, ks) = predict_loop lambda fitted df 0 ([], [])
         in Some \<lparr>rCurve = newR, ksCurve = ks,
                   color = reflectanceToColor lambda newR, depthFactor = df\<rparr>))"

text \<open>
  \<open>handleSelectHistory\<close>: the base data of the prediction is built from a stored
  spectrum, its transmittance \<open>T\<close> standing for the reflectance curve.
  \<^verbatim>\<open>
  const simulatedResult: ConcentrationResult = {
      components: [],
      metrics: { rmse: 0, residual_norm: 0 },
      chart_data: { lambda: data.data.lambda, original: data.data.T,
                    fitted: data.data.T, residual: [] }
  };
  \<close>
\<close>

definition simulatedResult :: "ProcessedData \<Rightarrow> ConcentrationResult" where
  "simulatedResult d =
    \<lparr>components = [], metrics = \<lparr>rmse = 0, residual_norm = 0\<rparr>,
     chart_data = \<lparr>cd_lambda = data_lambda d, cd_original = data_T d,
                   cd_fitted = data_T d, cd_residual = []\<rparr>\<rparr>"

section \<open>Auxiliary notions for the statements\<close>

text \<open>The value that the loop of \<open>prediction\<close> pushes onto \<open>ksCurve\<close> at index
  \<open>i\<close>; the value pushed onto \<open>newR\<close> is \<open>KStoR\<close> of it.\<close>

definition predicted_ks :: "real list \<Rightarrow> number \<Rightarrow> nat \<Rightarrow> number" where
  "predicted_ks fitted df i = js_mul (RtoKS_num (clampR (js_index fitted (int i)))) df"

text \<open>Scaling every value of a reflectance curve by the same factor (not a function of the
  sources: the scaling that the luminance property speaks about).\<close>

definition scale_curve :: "real \<Rightarrow> number list \<Rightarrow> number list" where
  "scale_curve k R = map (map_option ((*) k)) R"

text \<open>The number of values that one call of \<open>analyzeConcentration\<close> takes from
  \<open>Math.random()\<close>: one for each standard, one for each point of the sample, two for the
  metrics; none when the sample is missing.\<close>

definition draws_needed :: "storage \<Rightarrow> string \<Rightarrow> string list \<Rightarrow> nat" where
  "draws_needed db sampleFilename standardFilenames =
    (case db sampleFilename of
       None \<Rightarrow> 0
     | Some sample \<Rightarrow> length standardFilenames + length (data_A sample) + 2)"

text \<open>The linear combination \<open>\<Sum> c\<^sub>i * standard\<^sub>i\<close> at the point \<open>i\<close> of the grid,
  and closeness within a relative tolerance (not functions of the sources: the fit that a
  least-squares resolver would report).\<close>

definition linear_combination :: "real list \<Rightarrow> real list list \<Rightarrow> nat \<Rightarrow> real" where
  "linear_combination cs standards i = (\<Sum>(c, a) \<leftarrow> zip cs standards. c * a ! i)"

definition within_rel_tol :: "real \<Rightarrow> real \<Rightarrow> real \<Rightarrow> bool" where
  "within_rel_tol tol x y = (\<bar>x - y\<bar> \<le> tol * max \<bar>x\<bar> \<bar>y\<bar>)"

text \<open>A source of random numbers that always returns the same value, and a store with one
  sample and one standard, for the examples.\<close>

definition const_rng :: "real \<Rightarrow> rng" where
  "const_rng u = (\<lambda>n. u)"

definition example_store :: storage where
  "example_store =
    [''sample.spc'' \<mapsto> \<lparr>meta_name = Some ''sample'', data_lambda = [400, 410], data_I_corr = [],
                          data_T = [0.1, 0.01], data_A = [1, 2]\<rparr>,
     ''std_red.spc'' \<mapsto> \<lparr>meta_name = Some ''red'', data_lambda = [400, 410], data_I_corr = [],
                           data_T = [0.1, 0.1], data_A = [1, 1]\<rparr>]"

section \<open>Kubelka-Munk: auxiliary facts\<close>

lemma KStoR_nonneg: "0 \<le> KS \<Longrightarrow> KStoR KS = Some (1 + KS - sqrt (KS\<^sup>2 + 2 * KS))"
  by (simp add: KStoR_def js_sqrt_def not_less)





lemma RtoKS_radicand:
  assumes "0 < R" "R \<le> 1"
  shows "sqrt (((1 - R)\<^sup>2 / (2 * R))\<^sup>2 + 2 * ((1 - R)\<^sup>2 / (2 * R))) = (1 - R\<^sup>2) / (2 * R)"
proof (rule real_sqrt_unique)
  show "((1 - R\<^sup>2) / (2 * R))\<^sup>2 = ((1 - R)\<^sup>2 / (2 * R))\<^sup>2 + 2 * ((1 - R)\<^sup>2 / (2 * R))"
    using assms by (simp add: power2_eq_square field_simps)
  have "R\<^sup>2 \<le> 1" using assms by (simp add: power_le_one)
  then show "0 \<le> (1 - R\<^sup>2) / (2 * R)" using assms by simp
qed

lemma KStoR_RtoKS_unclamped:
  assumes "0 < R" "R \<le> 1"
  shows "KStoR ((1 - R)\<^sup>2 / (2 * R)) = Some R"
proof -
  have nn: "0 \<le> (1 - R)\<^sup>2 / (2 * R)" using assms by simp
  have "1 + (1 - R)\<^sup>2 / (2 * R) - (1 - R\<^sup>2) / (2 * R) = R"
    using assms by (simp add: power2_eq_square field_simps)
  then show ?thesis
    by (simp only: KStoR_nonneg[OF nn] RtoKS_radicand[OF assms])
qed

lemma RtoKS_in_range: "0.001 \<le> R \<Longrightarrow> R \<le> 0.999 \<Longrightarrow> RtoKS R = (1 - R)\<^sup>2 / (2 * R)"
  by (simp add: RtoKS_def Let_def)

lemma RtoKS_nonneg: "0 \<le> RtoKS R"
  by (simp add: RtoKS_def Let_def)

section \<open>Interpolation: auxiliary facts\<close>

lemma findIndex_ge: "- 1 \<le> findIndex P xs"
  by (induction xs) (auto simp: Let_def)

lemma findIndex_none: "findIndex P xs = - 1 \<longleftrightarrow> (\<forall>x \<in> set xs. \<not> P x)"
proof (induction xs)
  case Nil
  show ?case by simp
next
  case (Cons x xs)
  have "findIndex P xs + 1 \<noteq> - 1" using findIndex_ge[of P xs] by linarith
  with Cons show ?case by (auto simp: Let_def)
qed

lemma findIndex_found:
  "findIndex P xs \<noteq> - 1 \<Longrightarrow>
     \<exists>k. findIndex P xs = int k \<and> k < length xs \<and> P (xs ! k) \<and> (\<forall>j < k. \<not> P (xs ! j))"
proof (induction xs)
  case Nil
  then show ?case by simp
next
  case (Cons x xs)
  show ?case
  proof (cases "P x")
    case True
    then show ?thesis by (intro exI[of _ 0]) simp
  next
    case False
    with Cons.prems have "findIndex P xs \<noteq> - 1" by (auto simp: Let_def split: if_splits)
    from Cons.IH[OF this] obtain k where k: "findIndex P xs = int k" "k < length xs" "P (xs ! k)"
      "\<forall>j < k. \<not> P (xs ! j)" by blast
    have "\<forall>j < Suc k. \<not> P ((x # xs) ! j)"
    proof (intro allI impI)
      fix j assume "j < Suc k"
      then show "\<not> P ((x # xs) ! j)" using False k(4) by (cases j) simp_all
    qed
    with False k show ?thesis by (intro exI[of _ "Suc k"]) (simp add: Let_def)
  qed
qed

lemma js_index_0: "xs \<noteq> [] \<Longrightarrow> js_index xs 0 = Some (hd xs)"
  by (cases xs) (simp_all add: js_index_def)

lemma js_index_last: "xs \<noteq> [] \<Longrightarrow> js_index xs (int (length xs) - 1) = Some (last xs)"
  by (cases xs rule: rev_cases) (simp_all add: js_index_def nth_append)

lemma js_index_nat: "k < length xs \<Longrightarrow> js_index xs (int k) = Some (xs ! k)"
  by (simp add: js_index_def)

lemma js_get_Some: "k < length ys \<Longrightarrow> js_get (map Some ys) (int k) = Some (ys ! k)"
  by (simp add: js_get_def js_index_def)

lemma js_get_0: "ys \<noteq> [] \<Longrightarrow> js_get (map Some ys) 0 = Some (hd ys)"
  by (cases ys) (simp_all add: js_get_def js_index_def)

lemma js_get_last: "ys \<noteq> [] \<Longrightarrow> js_get (map Some ys) (int (length (map Some ys)) - 1) = Some (last ys)"
  by (cases ys rule: rev_cases) (simp_all add: js_get_def js_index_def nth_append)

text \<open>The three branches of \<open>interpolate\<close> on a non-empty grid.\<close>

lemma interpolate_low:
  "lambda \<noteq> [] \<Longrightarrow> target \<le> hd lambda \<Longrightarrow> interpolate lambda values target = js_get values 0"
  by (simp add: interpolate_def js_index_0 js_le_def)

lemma interpolate_high:
  "lambda \<noteq> [] \<Longrightarrow> \<not> target \<le> hd lambda \<Longrightarrow> last lambda \<le> target \<Longrightarrow>
     interpolate lambda values target = js_get values (int (length values) - 1)"
  by (simp add: interpolate_def js_index_0 js_index_last js_le_def js_ge_def)

lemma interpolate_mid:
  assumes "lambda \<noteq> []" "\<not> target \<le> hd lambda" "\<not> last lambda \<le> target"
  shows "\<exists>k. Suc k < length lambda \<and> lambda ! k < target \<and> target \<le> lambda ! Suc k
            \<and> findIndex (\<lambda>l. l \<ge> target) lambda = int (Suc k)
            \<and> interpolate lambda values target =
               do { y0 \<leftarrow> js_get values (int k); y1 \<leftarrow> js_get values (int (Suc k));
                    Some (y0 + (y1 - y0) * ((target - lambda ! k) / (lambda ! Suc k - lambda ! k))) }"
proof -
  let ?P = "\<lambda>l. l \<ge> target"
  have "last lambda \<in> set lambda" using assms(1) by simp
  moreover have "?P (last lambda)" using assms(3) by simp
  ultimately have "findIndex ?P lambda \<noteq> - 1" unfolding findIndex_none by blast
  from findIndex_found[OF this] obtain m where m: "findIndex ?P lambda = int m" "m < length lambda"
    "?P (lambda ! m)" "\<forall>j < m. \<not> ?P (lambda ! j)" by blast
  have "m \<noteq> 0" using m(3) assms(1,2) by (cases m) (simp_all add: hd_conv_nth)
  then obtain k where k: "m = Suc k" by (cases m) simp_all
  have lt: "lambda ! k < target" using m(4) k by (simp add: not_le)
  have idx: "js_index lambda (int (Suc k) - 1) = Some (lambda ! k)"
    "js_index lambda (int (Suc k)) = Some (lambda ! Suc k)"
    using m(2) k js_index_nat[of k lambda] js_index_nat[of "Suc k" lambda] by simp_all
  have "interpolate lambda values target =
               do { y0 \<leftarrow> js_get values (int k); y1 \<leftarrow> js_get values (int (Suc k));
                    Some (y0 + (y1 - y0) * ((target - lambda ! k) / (lambda ! Suc k - lambda ! k))) }"
    using assms m(1) idx unfolding k
    by (simp add: interpolate_def js_index_0 js_index_last js_le_def js_ge_def Let_def)
  with m k lt show ?thesis by auto
qed

lemma interpolate_Nil: "interpolate [] values target = Some 0"
  by (simp add: interpolate_def js_index_def js_le_def js_ge_def)

lemma sorted_wrt_less_nth:
  fixes xs :: "real list"
  shows "sorted_wrt (<) xs \<Longrightarrow> i < j \<Longrightarrow> j < length xs \<Longrightarrow> xs ! i < xs ! j"
  by (simp add: sorted_wrt_iff_nth_less)

lemma interpolate_bracket:
  assumes ne: "lambda \<noteq> []" and asc: "sorted_wrt (<) lambda" and len: "length ys = length lambda"
    and i: "Suc i < length lambda" and lo: "lambda ! i < target" and hi: "target \<le> lambda ! Suc i"
  shows "interpolate lambda (map Some ys) target =
           Some (ys ! i + (ys ! Suc i - ys ! i) * ((target - lambda ! i) / (lambda ! Suc i - lambda ! i)))"
proof -
  have hd_le: "hd lambda \<le> lambda ! i"
  proof (cases i)
    case 0
    then show ?thesis using ne by (simp add: hd_conv_nth)
  next
    case (Suc m)
    then have "lambda ! 0 < lambda ! i" using asc i by (intro sorted_wrt_less_nth) simp_all
    then show ?thesis using ne by (simp add: hd_conv_nth)
  qed
  then have nlow: "\<not> target \<le> hd lambda" using lo by simp
  show ?thesis
  proof (cases "last lambda \<le> target")
    case True
    have last_nth: "last lambda = lambda ! (length lambda - 1)" using ne by (simp add: last_conv_nth)
    have "Suc i = length lambda - 1"
    proof (rule ccontr)
      assume "Suc i \<noteq> length lambda - 1"
      then have "Suc i < length lambda - 1" using i by simp
      then have "lambda ! Suc i < lambda ! (length lambda - 1)"
        using asc ne by (intro sorted_wrt_less_nth) simp_all
      with True hi last_nth show False by simp
    qed
    have ysne: "ys \<noteq> []" using len ne by auto
    have "last ys = ys ! (length ys - 1)" using ysne by (simp add: last_conv_nth)
    with \<open>Suc i = length lambda - 1\<close> have eqs: "last ys = ys ! Suc i" "target = lambda ! Suc i"
      using len True hi last_nth by simp_all
    have "interpolate lambda (map Some ys) target = Some (last ys)"
      using interpolate_high[OF ne nlow True] js_get_last[OF ysne] by simp
    moreover have "lambda ! Suc i - lambda ! i \<noteq> 0" using lo hi by simp
    ultimately show ?thesis using eqs by simp
  next
    case False
    from interpolate_mid[OF ne nlow False, of "map Some ys"] obtain k where
      k: "Suc k < length lambda" "lambda ! k < target" "target \<le> lambda ! Suc k"
         "interpolate lambda (map Some ys) target =
            do { y0 \<leftarrow> js_get (map Some ys) (int k); y1 \<leftarrow> js_get (map Some ys) (int (Suc k));
                 Some (y0 + (y1 - y0) * ((target - lambda ! k) / (lambda ! Suc k - lambda ! k))) }"
      by blast
    have "k = i"
    proof (rule ccontr)
      assume "k \<noteq> i"
      then consider "k < i" | "i < k" by linarith
      then show False
      proof cases
        case 1
        then have "lambda ! Suc k \<le> lambda ! i"
          using asc i sorted_wrt_less_nth[of lambda "Suc k" i] by (cases "Suc k = i") auto
        with k(3) lo show False by simp
      next
        case 2
        then have "lambda ! Suc i \<le> lambda ! k"
          using asc k(1) sorted_wrt_less_nth[of lambda "Suc i" k] by (cases "Suc i = k") auto
        with k(2) hi show False by simp
      qed
    qed
    with k(4) i len show ?thesis
      using js_get_Some[of i ys] js_get_Some[of "Suc i" ys] by simp
  qed
qed

section \<open>Round trip of the Kubelka-Munk transform\<close>

text \<open>
  Claim C2. For every reflectance \<open>R\<close> in \<open>[0.01, 0.99]\<close>, \<open>KStoR (RtoKS R)\<close> is a
  number (not \<open>NaN\<close>) that differs from \<open>R\<close> by at most \<open>1e-6\<close>; in exact
  arithmetic it is \<open>R\<close> itself. Here \<open>RtoKS R\<close> is \<open>(1 - c)\<^sup>2 / (2 c)\<close> for the value
  \<open>c\<close> of \<open>R\<close> clamped to \<open>[0.001, 0.999]\<close> (which is \<open>R\<close> on this interval), and
  \<open>KStoR KS\<close> is \<open>1 + KS - sqrt (KS\<^sup>2 + 2 KS)\<close>.
\<close>

theorem KStoR_RtoKS_roundtrip:
  assumes "0.01 \<le> R" "R \<le> 0.99"
  shows "(\<exists>r. KStoR (RtoKS R) = Some r \<and> \<bar>r - R\<bar> \<le> 0.000001)
       \<and> KStoR (RtoKS R) = Some R
       \<and> RtoKS R = (1 - max 0.001 (min 0.999 R))\<^sup>2 / (2 * max 0.001 (min 0.999 R))
       \<and> max 0.001 (min 0.999 R) = R
       \<and> KStoR (RtoKS R) = Some (1 + RtoKS R - sqrt ((RtoKS R)\<^sup>2 + 2 * RtoKS R))"
proof -
  have c: "max 0.001 (min 0.999 R) = R" using assms by simp
  have d: "RtoKS R = (1 - max 0.001 (min 0.999 R))\<^sup>2 / (2 * max 0.001 (min 0.999 R))"
    by (simp add: RtoKS_def Let_def)
  have e: "RtoKS R = (1 - R)\<^sup>2 / (2 * R)" using assms by (intro RtoKS_in_range) simp_all
  have "KStoR ((1 - R)\<^sup>2 / (2 * R)) = Some R"
    using assms by (intro KStoR_RtoKS_unclamped) simp_all
  then have r: "KStoR (RtoKS R) = Some R" unfolding e .
  have k: "KStoR (RtoKS R) = Some (1 + RtoKS R - sqrt ((RtoKS R)\<^sup>2 + 2 * RtoKS R))"
    by (rule KStoR_nonneg[OF RtoKS_nonneg])
  have "\<exists>r. KStoR (RtoKS R) = Some r \<and> \<bar>r - R\<bar> \<le> 0.000001" using r by simp
  with r d c k show ?thesis by blast
qed

theorem KStoR_RtoKS_roundtrip_witness:
  "(0.01 :: real) \<le> 0.5 \<and> (0.5 :: real) \<le> 0.99
   \<and> KStoR (RtoKS 0.5) = Some 0.5 \<and> \<bar>(0.5 :: real) - 0.5\<bar> \<le> 0.000001"
proof -
  have h: "(0.01 :: real) \<le> 0.5" "(0.5 :: real) \<le> 0.99" by simp_all
  from KStoR_RtoKS_roundtrip[OF h] have "KStoR (RtoKS 0.5) = Some 0.5" by blast
  with h show ?thesis by simp
qed

section \<open>Interpolation on a well-formed curve\<close>

text \<open>
  Claim C7. For a curve with at least one point, strictly ascending wavelengths and as many
  (finite) values as wavelengths, \<open>interpolate\<close> returns the first value when the target
  is at or below the smallest wavelength, the last value when it is at or above the largest
  one, and otherwise (strictly between the two) there is a pair of neighbouring points
  with \<open>lambda ! i < target \<le> lambda ! Suc i\<close>, and for every such pair the result is
  \<open>y0 + (y1 - y0) * (target - x0) / (x1 - x0)\<close>.
\<close>

theorem interpolate_edge_hold_and_linear:
  assumes "lambda \<noteq> []" and "sorted_wrt (<) lambda" and "length ys = length lambda"
  shows "(target \<le> hd lambda \<longrightarrow> interpolate lambda (map Some ys) target = Some (hd ys))
       \<and> (last lambda \<le> target \<longrightarrow> interpolate lambda (map Some ys) target = Some (last ys))
       \<and> (hd lambda < target \<and> target < last lambda \<longrightarrow>
            (\<exists>i. Suc i < length lambda \<and> lambda ! i < target \<and> target \<le> lambda ! Suc i))
       \<and> (\<forall>i. Suc i < length lambda \<and> lambda ! i < target \<and> target \<le> lambda ! Suc i \<longrightarrow>
            interpolate lambda (map Some ys) target =
              Some (ys ! i + (ys ! Suc i - ys ! i)
                      * ((target - lambda ! i) / (lambda ! Suc i - lambda ! i))))"
proof (intro conjI impI allI)
  have ysne: "ys \<noteq> []" using assms by auto
  {
    assume "target \<le> hd lambda"
    then show "interpolate lambda (map Some ys) target = Some (hd ys)"
      using interpolate_low[OF assms(1)] js_get_0[OF ysne] by simp
  }
  {
    assume hi: "last lambda \<le> target"
    show "interpolate lambda (map Some ys) target = Some (last ys)"
    proof (cases "target \<le> hd lambda")
      case False
      then show ?thesis using interpolate_high[OF assms(1) False hi] js_get_last[OF ysne] by simp
    next
      case True
      have "length lambda = 1"
      proof (rule ccontr)
        assume "length lambda \<noteq> 1"
        then have "0 < length lambda - 1" using assms(1) by (cases lambda) auto
        then have "lambda ! 0 < lambda ! (length lambda - 1)"
          using assms(2) by (intro sorted_wrt_less_nth) simp_all
        then have "hd lambda < last lambda" using assms(1) by (simp add: hd_conv_nth last_conv_nth)
        with True hi show False by simp
      qed
      then have "hd ys = last ys" using assms(3) by (cases ys) auto
      then show ?thesis using interpolate_low[OF assms(1) True] js_get_0[OF ysne] by simp
    qed
  }
  {
    assume mid: "hd lambda < target \<and> target < last lambda"
    then have "\<not> target \<le> hd lambda" "\<not> last lambda \<le> target" by simp_all
    from interpolate_mid[OF assms(1) this, of "map Some ys"]
    show "\<exists>i. Suc i < length lambda \<and> lambda ! i < target \<and> target \<le> lambda ! Suc i" by blast
  }
  {
    fix i
    assume "Suc i < length lambda \<and> lambda ! i < target \<and> target \<le> lambda ! Suc i"
    then show "interpolate lambda (map Some ys) target =
              Some (ys ! i + (ys ! Suc i - ys ! i)
                      * ((target - lambda ! i) / (lambda ! Suc i - lambda ! i)))"
      using interpolate_bracket[OF assms] by blast
  }
qed

theorem interpolate_edge_hold_and_linear_witness:
  "[400, 500 :: real] \<noteq> [] \<and> sorted_wrt (<) [400, 500 :: real]
   \<and> length [1, 3 :: real] = length [400, 500 :: real]
   \<and> interpolate [400, 500] (map Some [1, 3]) 400 = Some 1
   \<and> interpolate [400, 500] (map Some [1, 3]) 500 = Some 3
   \<and> interpolate [400, 500] (map Some [1, 3]) 450 = Some 2"
proof -
  have h: "[400, 500 :: real] \<noteq> []" "sorted_wrt (<) [400, 500 :: real]"
    "length [1, 3 :: real] = length [400, 500 :: real]" by simp_all
  have a: "interpolate [400, 500] (map Some [1, 3]) 400 = Some 1"
    using interpolate_edge_hold_and_linear[OF h, of 400] by simp
  have b: "interpolate [400, 500] (map Some [1, 3]) 500 = Some 3"
    using interpolate_edge_hold_and_linear[OF h, of 500] by simp
  have "Suc 0 < length [400, 500 :: real] \<and> [400, 500 :: real] ! 0 < 450
        \<and> (450 :: real) \<le> [400, 500] ! Suc 0" by simp
  then have c: "interpolate [400, 500] (map Some [1, 3]) 450 = Some 2"
    using interpolate_edge_hold_and_linear[OF h, of 450] by simp
  from h a b c show ?thesis by blast
qed

section \<open>Interpolation on an empty curve\<close>

text \<open>
  Claim C8 says that \<open>interpolate\<close> fails with \<open>InvalidInput\<close> on a curve without
  points. The function has no failing path: on the empty curve it returns the number
  \<open>0\<close>.
\<close>

theorem interpolate_empty_counterexample: "interpolate [] [] 500 = Some 0"
  by (simp add: interpolate_def js_index_def js_le_def js_ge_def)

text \<open>
  Claim C8, amended. On a curve with no wavelengths \<open>interpolate\<close> returns \<open>0\<close> for
  every target, whatever the values array holds.
\<close>

theorem interpolate_empty_returns_zero: "interpolate [] values target = Some 0"
  by (rule interpolate_Nil)

section \<open>Colour integration: auxiliary facts\<close>

lemma js_get_map: "js_get (map (map_option f) values) i = map_option f (js_get values i)"
  by (auto simp: js_get_def js_index_def)

lemma interpolate_scale:
  "interpolate lambda (map (map_option ((*) k)) values) target
     = map_option ((*) k) (interpolate lambda values target)"
proof -
  have bind: "\<And>a b (c :: real) d.
      do { y0 \<leftarrow> map_option ((*) k) a; y1 \<leftarrow> map_option ((*) k) b; Some (y0 + (y1 - y0) * c) }
      = map_option ((*) k) (do { y0 \<leftarrow> a; y1 \<leftarrow> b; Some (y0 + (y1 - y0) * c) })"
    by (simp add: algebra_simps split: Option.bind_split)
  have bind2: "\<And>(a :: real option) (b :: real option) (h :: real \<Rightarrow> real \<Rightarrow> real option).
      do { x0 \<leftarrow> a; x1 \<leftarrow> b; map_option ((*) k) (h x0 x1) }
      = map_option ((*) k) (do { x0 \<leftarrow> a; x1 \<leftarrow> b; h x0 x1 })"
    by (simp split: Option.bind_split)
  show ?thesis
    unfolding interpolate_def Let_def js_get_map length_map bind bind2
    by simp
qed

lemma cmf_table_pos: "\<forall>(k, p) \<in> set cmfTable. 0 < cmf_d65 p \<and> 0 < cmf_y p"
  by (simp add: cmfTable_def)

lemma cmf_weight_pos: "cmfData nm = Some p \<Longrightarrow> 0 < cmf_d65 p * cmf_y p"
proof -
  assume "cmfData nm = Some p"
  then have "(nm, p) \<in> set cmfTable" unfolding cmfData_def by (rule map_of_SomeD)
  with cmf_table_pos show ?thesis by auto
qed

lemma cmfData_400: "\<exists>p. cmfData 400 = Some p"
  by (simp add: cmfData_def cmfTable_def)

lemma interpolate_bounds:
  assumes ne: "lambda \<noteq> []" and len: "length ys = length lambda"
    and bnd: "\<forall>y \<in> set ys. lo \<le> y \<and> y \<le> hi"
  shows "\<exists>v. interpolate lambda (map Some ys) target = Some v \<and> lo \<le> v \<and> v \<le> hi"
proof -
  have ysne: "ys \<noteq> []" using ne len by auto
  have nth: "\<And>k. k < length ys \<Longrightarrow> lo \<le> ys ! k \<and> ys ! k \<le> hi" using bnd by simp
  show ?thesis
  proof (cases "target \<le> hd lambda")
    case True
    have "hd ys \<in> set ys" using ysne by simp
    then show ?thesis using interpolate_low[OF ne True] js_get_0[OF ysne] bnd by simp
  next
    case nlow: False
    show ?thesis
    proof (cases "last lambda \<le> target")
      case True
      have "last ys \<in> set ys" using ysne by simp
      then show ?thesis using interpolate_high[OF ne nlow True] js_get_last[OF ysne] bnd by simp
    next
      case False
      from interpolate_mid[OF ne nlow False, of "map Some ys"] obtain k where
        k: "Suc k < length lambda" "lambda ! k < target" "target \<le> lambda ! Suc k"
           "interpolate lambda (map Some ys) target =
              do { y0 \<leftarrow> js_get (map Some ys) (int k); y1 \<leftarrow> js_get (map Some ys) (int (Suc k));
                   Some (y0 + (y1 - y0) * ((target - lambda ! k) / (lambda ! Suc k - lambda ! k))) }"
        by blast
      define w where "w = (target - lambda ! k) / (lambda ! Suc k - lambda ! k)"
      have w: "0 \<le> w" "w \<le> 1" using k(2,3) by (simp_all add: w_def)
      define y0 where "y0 = ys ! k"
      define y1 where "y1 = ys ! Suc k"
      have b0: "lo \<le> y0" "y0 \<le> hi" and b1: "lo \<le> y1" "y1 \<le> hi"
        using nth[of k] nth[of "Suc k"] k(1) len by (simp_all add: y0_def y1_def)
      have v: "interpolate lambda (map Some ys) target = Some (y0 + (y1 - y0) * w)"
        using k(1,4) len js_get_Some[of k ys] js_get_Some[of "Suc k" ys]
        by (simp add: w_def y0_def y1_def)
      have eq: "y0 + (y1 - y0) * w = (1 - w) * y0 + w * y1" by (simp add: algebra_simps)
      have "(1 - w) * lo \<le> (1 - w) * y0" "w * lo \<le> w * y1"
        using w b0 b1 by (simp_all add: mult_left_mono)
      then have lower: "lo \<le> (1 - w) * y0 + w * y1" by (simp add: algebra_simps)
      have "(1 - w) * y0 \<le> (1 - w) * hi" "w * y1 \<le> w * hi"
        using w b0 b1 by (simp_all add: mult_left_mono)
      then have upper: "(1 - w) * y0 + w * y1 \<le> hi" by (simp add: algebra_simps)
      show ?thesis using v lower upper unfolding eq by simp
    qed
  qed
qed

lemma sumY_step:
  "cmfData nm = Some p \<Longrightarrow>
   sumY (color_step lambda R nm s)
     = js_add (sumY s) (map_option (\<lambda>r. r * cmf_d65 p * cmf_y p) (rFactor_of (interpolate lambda R (real_of_int nm))))"
  by (simp add: color_step_def Let_def)

lemma sumN_step:
  "cmfData nm = Some p \<Longrightarrow> sumN (color_step lambda R nm s) = sumN s + cmf_d65 p * cmf_y p"
  by (simp add: color_step_def Let_def)

lemma step_None: "cmfData nm = None \<Longrightarrow> color_step lambda R nm s = s"
  by (simp add: color_step_def Let_def)

lemma color_loop_N_indep:
  "sumN s = sumN s' \<Longrightarrow> sumN (color_loop lambda R nm s) = sumN (color_loop lambda' R' nm s')"
proof (induction lambda R nm s arbitrary: s' rule: color_loop.induct)
  case (1 lambda R nm s)
  show ?case
  proof (cases "nm \<le> 700")
    case True
    have "sumN (color_step lambda R nm s) = sumN (color_step lambda' R' nm s')"
      using "1.prems" by (cases "cmfData nm") (simp_all add: step_None sumN_step)
    from "1.IH"[OF True this] show ?thesis
      using True by (simp add: color_loop.simps[of _ _ nm])
  next
    case False
    then show ?thesis using "1.prems" by (simp add: color_loop.simps[of _ _ nm])
  qed
qed

lemma color_loop_N_mono:
  "sumN s \<le> sumN (color_loop lambda R nm s)"
proof (induction lambda R nm s rule: color_loop.induct)
  case (1 lambda R nm s)
  show ?case
  proof (cases "nm \<le> 700")
    case True
    have "sumN s \<le> sumN (color_step lambda R nm s)"
    proof (cases "cmfData nm")
      case None
      then show ?thesis by (simp add: step_None)
    next
      case (Some p)
      then show ?thesis using cmf_weight_pos[OF Some] by (simp add: sumN_step)
    qed
    with "1.IH"[OF True] show ?thesis
      using True by (simp add: color_loop.simps[of _ _ nm])
  next
    case False
    then show ?thesis by (simp add: color_loop.simps[of _ _ nm])
  qed
qed

lemma color_loop_N_pos:
  "0 < sumN (color_loop lambda R 400 \<lparr>sumX = Some 0, sumY = Some 0, sumZ = Some 0, sumN = 0\<rparr>)"
proof -
  let ?s0 = "\<lparr>sumX = Some 0, sumY = Some 0, sumZ = Some 0, sumN = 0\<rparr>"
  obtain p where p: "cmfData 400 = Some p" using cmfData_400 by blast
  have "0 < sumN (color_step lambda R 400 ?s0)"
    using cmf_weight_pos[OF p] by (simp add: sumN_step[OF p])
  also have "\<dots> \<le> sumN (color_loop lambda R 410 (color_step lambda R 400 ?s0))"
    by (rule color_loop_N_mono)
  finally show ?thesis by (simp add: color_loop.simps[of _ _ 400])
qed

lemma color_loop_Y_scaled:
  assumes "\<And>t. \<exists>v. rFactor_of (interpolate lambda R t) = Some v \<and> 0 < v
                  \<and> rFactor_of (interpolate lambda R' t) = Some (k * v)"
    and "sumY s = Some y" and "sumY s' = Some (k * y)"
  shows "\<exists>yf. sumY (color_loop lambda R nm s) = Some yf
            \<and> sumY (color_loop lambda R' nm s') = Some (k * yf) \<and> y \<le> yf
            \<and> (nm \<le> 700 \<and> cmfData nm \<noteq> None \<longrightarrow> y < yf)"
  using assms
proof (induction lambda R nm s arbitrary: s' y rule: color_loop.induct)
  case (1 lambda R nm s)
  show ?case
  proof (cases "nm \<le> 700")
    case False
    then show ?thesis using "1.prems"(2,3) by (simp add: color_loop.simps[of _ _ nm])
  next
    case True
    obtain v where v: "rFactor_of (interpolate lambda R (real_of_int nm)) = Some v" "0 < v"
      "rFactor_of (interpolate lambda R' (real_of_int nm)) = Some (k * v)"
      using "1.prems"(1) by blast
    define y1 where "y1 = (case cmfData nm of None \<Rightarrow> y | Some p \<Rightarrow> y + v * cmf_d65 p * cmf_y p)"
    have s1: "sumY (color_step lambda R nm s) = Some y1"
      using "1.prems"(2) v(1)
      by (cases "cmfData nm") (simp_all add: step_None sumY_step y1_def js_add_def)
    have s1': "sumY (color_step lambda R' nm s') = Some (k * y1)"
      using "1.prems"(3) v(3)
      by (cases "cmfData nm") (simp_all add: step_None sumY_step y1_def js_add_def algebra_simps)
    have mono: "y \<le> y1" "cmfData nm \<noteq> None \<longrightarrow> y < y1"
    proof -
      have "\<And>p. cmfData nm = Some p \<Longrightarrow> 0 < v * cmf_d65 p * cmf_y p"
        using cmf_weight_pos v(2) by (simp add: mult.assoc)
      then show "y \<le> y1" "cmfData nm \<noteq> None \<longrightarrow> y < y1"
        by (cases "cmfData nm"; fastforce simp: y1_def)+
    qed
    from "1.IH"[OF True "1.prems"(1) s1 s1'] obtain yf where
      yf: "sumY (color_loop lambda R (nm + 10) (color_step lambda R nm s)) = Some yf"
          "sumY (color_loop lambda R' (nm + 10) (color_step lambda R' nm s')) = Some (k * yf)"
          "y1 \<le> yf" by blast
    have "y \<le> yf" "cmfData nm \<noteq> None \<longrightarrow> y < yf" using mono yf(3) by auto
    then show ?thesis
      using True yf(1,2) by (intro exI[of _ yf]) (simp add: color_loop.simps[of _ _ nm])
  qed
qed

lemma color_loop_flat:
  assumes "\<And>t. rFactor_of (interpolate lambda R t) = Some c"
    and "sumY s = Some (c * sumN s)"
  shows "sumY (color_loop lambda R nm s) = Some (c * sumN (color_loop lambda R nm s))"
  using assms
proof (induction lambda R nm s rule: color_loop.induct)
  case (1 lambda R nm s)
  show ?case
  proof (cases "nm \<le> 700")
    case False
    then show ?thesis using "1.prems"(2) by (simp add: color_loop.simps[of _ _ nm])
  next
    case True
    have "sumY (color_step lambda R nm s) = Some (c * sumN (color_step lambda R nm s))"
      using "1.prems"
      by (cases "cmfData nm") (simp_all add: step_None sumY_step sumN_step js_add_def algebra_simps)
    from "1.IH"[OF True "1.prems"(1) this] show ?thesis
      using True by (simp add: color_loop.simps[of _ _ nm])
  qed
qed

lemma xyz_y_eq:
  "xyz_y (reflectanceToColor lambda R) =
     map_option (\<lambda>v. (v / sumN (color_loop lambda R 400 \<lparr>sumX = Some 0, sumY = Some 0, sumZ = Some 0, sumN = 0\<rparr>)) * 100)
       (sumY (color_loop lambda R 400 \<lparr>sumX = Some 0, sumY = Some 0, sumZ = Some 0, sumN = 0\<rparr>))"
  by (simp add: reflectanceToColor_def Let_def)

lemma rFactor_fraction: "v \<le> 1 \<Longrightarrow> rFactor_of (Some v) = Some v"
  by (simp add: rFactor_of_def js_gt_def)

lemma rFactor_percent: "1 < v \<Longrightarrow> rFactor_of (Some v) = Some (v / 100)"
  by (simp add: rFactor_of_def js_gt_def)

lemma Y_of_scaled:
  assumes step: "\<And>t. \<exists>v. rFactor_of (interpolate lambda R t) = Some v \<and> 0 < v
                  \<and> rFactor_of (interpolate lambda R' t) = Some (k * v)"
  shows "\<exists>Y. xyz_y (reflectanceToColor lambda R) = Some Y \<and> 0 < Y
            \<and> xyz_y (reflectanceToColor lambda R') = Some (k * Y)"
proof -
  let ?s0 = "\<lparr>sumX = Some 0, sumY = Some 0, sumZ = Some 0, sumN = 0\<rparr>"
  have "\<exists>yf. sumY (color_loop lambda R 400 ?s0) = Some yf
            \<and> sumY (color_loop lambda R' 400 ?s0) = Some (k * yf) \<and> 0 \<le> yf
            \<and> (400 \<le> (700::int) \<and> cmfData 400 \<noteq> None \<longrightarrow> 0 < yf)"
    by (rule color_loop_Y_scaled[OF step]) simp_all
  then obtain yf where yf: "sumY (color_loop lambda R 400 ?s0) = Some yf"
    "sumY (color_loop lambda R' 400 ?s0) = Some (k * yf)" "0 < yf"
    using cmfData_400 by auto
  have N: "sumN (color_loop lambda R' 400 ?s0) = sumN (color_loop lambda R 400 ?s0)"
    by (rule color_loop_N_indep) simp
  have Npos: "0 < sumN (color_loop lambda R 400 ?s0)" by (rule color_loop_N_pos)
  show ?thesis
    using yf Npos by (intro exI[of _ "yf / sumN (color_loop lambda R 400 ?s0) * 100"])
      (simp add: xyz_y_eq N)
qed

lemma curve_min_max:
  assumes "ys \<noteq> []"
  shows "\<forall>y \<in> set ys. Min (set ys) \<le> y \<and> y \<le> Max (set ys)"
    and "Min (set ys) \<in> set ys" and "Max (set ys) \<in> set ys"
  using assms by simp_all

lemma flat_Y:
  assumes ne: "lambda \<noteq> []" and len: "length ys = length lambda"
    and flat: "\<forall>y \<in> set ys. c \<le> y \<and> y \<le> c" and rf: "rFactor_of (Some c) = Some c'"
  shows "xyz_y (reflectanceToColor lambda (map Some ys)) = Some (100 * c')"
proof -
  let ?s0 = "\<lparr>sumX = Some 0, sumY = Some 0, sumZ = Some 0, sumN = 0\<rparr>"
  have step: "rFactor_of (interpolate lambda (map Some ys) t) = Some c'" for t
    using interpolate_bounds[OF ne len flat, of t] rf by auto
  have "sumY (color_loop lambda (map Some ys) 400 ?s0)
          = Some (c' * sumN (color_loop lambda (map Some ys) 400 ?s0))"
    by (rule color_loop_flat[OF step]) simp
  then show ?thesis
    using color_loop_N_pos[of lambda "map Some ys"] by (simp add: xyz_y_eq)
qed

section \<open>Luminance under uniform scaling\<close>

text \<open>
  Claim C4 says that scaling a reflectance curve upwards by any factor greater than 1
  increases \<open>Y\<close>. The percent convention of \<open>reflectanceToColor\<close> (a value above
  \<open>1\<close> is divided by \<open>100\<close>) breaks this: the flat curve \<open>0.8\<close> has \<open>Y = 80\<close>,
  and scaled by \<open>1.5\<close> it is the flat curve \<open>1.2\<close>, read as 1.2 percent, with
  \<open>Y = 1.2\<close>.
\<close>

theorem reflectanceToColor_Y_scaling_counterexample:
  "xyz_y (reflectanceToColor [400, 550, 700] (map Some [0.8, 0.8, 0.8])) = Some 80
   \<and> xyz_y (reflectanceToColor [400, 550, 700] (scale_curve 1.5 (map Some [0.8, 0.8, 0.8]))) = Some 1.2
   \<and> \<not> js_gt (xyz_y (reflectanceToColor [400, 550, 700] (scale_curve 1.5 (map Some [0.8, 0.8, 0.8]))))
              (xyz_y (reflectanceToColor [400, 550, 700] (map Some [0.8, 0.8, 0.8])))"
proof -
  have a: "xyz_y (reflectanceToColor [400, 550, 700] (map Some [0.8, 0.8, 0.8])) = Some (100 * 0.8)"
    by (rule flat_Y[where c = "0.8"]) (simp_all add: rFactor_fraction)
  have s: "scale_curve 1.5 (map Some [0.8, 0.8, 0.8]) = map Some [1.2, 1.2, 1.2 :: real]"
    by (simp add: scale_curve_def)
  have b: "xyz_y (reflectanceToColor [400, 550, 700] (map Some [1.2, 1.2, 1.2])) = Some (100 * (1.2 / 100))"
    by (rule flat_Y[where c = "1.2"]) (simp_all add: rFactor_percent)
  show ?thesis unfolding s using a b by (simp add: js_gt_def)
qed

text \<open>
  Claim C4, amended. For a non-empty curve with as many (finite) values as wavelengths and
  a factor \<open>k > 1\<close>: when all values are positive and stay at or below \<open>1\<close> after scaling,
  or when all values are above \<open>1\<close> already (percent on both sides), \<open>Y\<close> is a positive
  number and the scaled curve has \<open>Y\<close> multiplied by \<open>k\<close>, hence strictly larger.
\<close>

theorem reflectanceToColor_Y_scaling:
  assumes ne: "lambda \<noteq> []" and len: "length ys = length lambda" and k: "1 < k"
    and regime: "(\<forall>y \<in> set ys. 0 < y \<and> k * y \<le> 1) \<or> (\<forall>y \<in> set ys. 1 < y)"
  shows "\<exists>Y. xyz_y (reflectanceToColor lambda (map Some ys)) = Some Y \<and> 0 < Y
            \<and> xyz_y (reflectanceToColor lambda (scale_curve k (map Some ys))) = Some (k * Y)
            \<and> js_gt (xyz_y (reflectanceToColor lambda (scale_curve k (map Some ys))))
                     (xyz_y (reflectanceToColor lambda (map Some ys)))"
proof -
  have ysne: "ys \<noteq> []" using ne len by auto
  note mm = curve_min_max[OF ysne]
  have step: "\<exists>v. rFactor_of (interpolate lambda (map Some ys) t) = Some v \<and> 0 < v
                  \<and> rFactor_of (interpolate lambda (scale_curve k (map Some ys)) t) = Some (k * v)"
    for t
  proof -
    from interpolate_bounds[OF ne len mm(1), of t] obtain v where
      v: "interpolate lambda (map Some ys) t = Some v" "Min (set ys) \<le> v" "v \<le> Max (set ys)"
      by blast
    have v': "interpolate lambda (scale_curve k (map Some ys)) t = Some (k * v)"
      unfolding scale_curve_def interpolate_scale v(1) by simp
    from regime show ?thesis
    proof
      assume a: "\<forall>y \<in> set ys. 0 < y \<and> k * y \<le> 1"
      have "0 < v" using a mm(2) v(2) by fastforce
      have "k * v \<le> k * Max (set ys)" using k v(3) by simp
      also have "\<dots> \<le> 1" using a mm(3) by blast
      finally have kv: "k * v \<le> 1" .
      have "v \<le> k * v" using k \<open>0 < v\<close> by simp
      with kv have "v \<le> 1" by simp
      with kv \<open>0 < v\<close> show ?thesis
        unfolding v(1) v' by (simp add: rFactor_fraction)
    next
      assume b: "\<forall>y \<in> set ys. 1 < y"
      have "1 < v" using b mm(2) v(2) by fastforce
      have "v < k * v" using k \<open>1 < v\<close> by simp
      with \<open>1 < v\<close> have "1 < k * v" by linarith
      with \<open>1 < v\<close> show ?thesis
        unfolding v(1) v' by (intro exI[of _ "v / 100"]) (simp add: rFactor_percent)
    qed
  qed
  from Y_of_scaled[of lambda "map Some ys" "scale_curve k (map Some ys)" k, OF step]
  obtain Y where Y: "xyz_y (reflectanceToColor lambda (map Some ys)) = Some Y" "0 < Y"
    "xyz_y (reflectanceToColor lambda (scale_curve k (map Some ys))) = Some (k * Y)" by blast
  have "Y < k * Y" using k Y(2) by simp
  with Y show ?thesis by (simp add: js_gt_def)
qed

theorem reflectanceToColor_Y_scaling_witness:
  "[400, 700 :: real] \<noteq> [] \<and> length [0.2, 0.4 :: real] = length [400, 700 :: real] \<and> (1 :: real) < 2
   \<and> ((0 :: real) < 0.2 \<and> (2 :: real) * 0.2 \<le> 1) \<and> ((0 :: real) < 0.4 \<and> (2 :: real) * 0.4 \<le> 1)
   \<and> js_gt (xyz_y (reflectanceToColor [400, 700] (scale_curve 2 (map Some [0.2, 0.4]))))
            (xyz_y (reflectanceToColor [400, 700] (map Some [0.2, 0.4])))"
proof -
  have h: "[400, 700 :: real] \<noteq> []" "length [0.2, 0.4 :: real] = length [400, 700 :: real]"
    "(1 :: real) < 2" by simp_all
  have r: "(\<forall>y \<in> set [0.2, 0.4 :: real]. 0 < y \<and> 2 * y \<le> 1) \<or> (\<forall>y \<in> set [0.2, 0.4 :: real]. 1 < y)"
    by simp
  from reflectanceToColor_Y_scaling[OF h r]
  have "js_gt (xyz_y (reflectanceToColor [400, 700] (scale_curve 2 (map Some [0.2, 0.4]))))
            (xyz_y (reflectanceToColor [400, 700] (map Some [0.2, 0.4])))" by blast
  then show ?thesis by simp
qed

section \<open>Prediction: auxiliary facts\<close>

lemma predict_loop_eq:
  "predict_loop lambda fitted df i (newR, ks) =
     (newR @ map (\<lambda>j. KStoR_num (predicted_ks fitted df j)) [i ..< length lambda],
      ks @ map (predicted_ks fitted df) [i ..< length lambda])"
proof (induction lambda fitted df i "(newR, ks)" arbitrary: newR ks rule: predict_loop.induct)
  case (1 lambda fitted df i newR ks)
  show ?case
  proof (cases "i < length lambda")
    case True
    have up: "[i ..< length lambda] = i # [i + 1 ..< length lambda]"
      using True by (simp add: upt_conv_Cons)
    show ?thesis
      using True "1.hyps"[OF True refl refl refl]
      by (subst predict_loop.simps) (simp add: Let_def up predicted_ks_def)
  next
    case False
    then show ?thesis by (subst predict_loop.simps) simp
  qed
qed

lemma rCurve_prediction:
  "prediction (Some base) params = Some p \<Longrightarrow>
     rCurve p = map (\<lambda>j. KStoR_num (predicted_ks (cd_fitted (chart_data base)) (depthFactor_of params) j))
                  [0 ..< length (cd_lambda (chart_data base))]
   \<and> color p = reflectanceToColor (cd_lambda (chart_data base)) (rCurve p)
   \<and> depthFactor p = depthFactor_of params"
  by (auto simp: prediction_def Let_def predict_loop_eq)

lemma prediction_Some: "\<exists>p. prediction (Some base) params = Some p"
  by (simp add: prediction_def Let_def split: prod.split)

lemma clampR_Some: "clampR (Some r) = Some (max 0.001 (min 0.999 r))"
  by (simp add: clampR_def Let_def js_le_def js_ge_def max_def min_def)

lemma KStoR_RtoKS_clamped:
  "KStoR (RtoKS (max 0.001 (min 0.999 r))) = Some (max 0.001 (min 0.999 r))"
proof -
  let ?c = "max 0.001 (min 0.999 r)"
  have c: "0.001 \<le> ?c" "?c \<le> 0.999" by simp_all
  have "RtoKS ?c = (1 - ?c)\<^sup>2 / (2 * ?c)" by (rule RtoKS_in_range[OF c])
  moreover have "KStoR ((1 - ?c)\<^sup>2 / (2 * ?c)) = Some ?c"
  proof (rule KStoR_RtoKS_unclamped)
    show "0 < ?c" by (simp add: less_max_iff_disj)
    show "?c \<le> 1" by simp
  qed
  ultimately show ?thesis by simp
qed

lemma depthFactor_baseline:
  "exhaustionRate params = Some 70 \<Longrightarrow> liquorRatio params = Some 10 \<Longrightarrow> depthFactor_of params = Some 1"
  by (simp add: depthFactor_of_def ratio_of_def Let_def)

lemma predicted_baseline:
  "i < length fitted \<Longrightarrow>
   KStoR_num (predicted_ks fitted (Some 1) i) = Some (max 0.001 (min 0.999 (fitted ! i)))"
  using KStoR_RtoKS_clamped[of "fitted ! i"]
  by (simp add: predicted_ks_def js_index_nat clampR_Some RtoKS_num_def js_mul_def KStoR_num_def)

lemma prediction_baseline_curve:
  assumes "exhaustionRate params = Some 70" "liquorRatio params = Some 10"
    and "length (cd_fitted (chart_data base)) = length (cd_lambda (chart_data base))"
    and "prediction (Some base) params = Some p"
  shows "rCurve p = map (\<lambda>r. Some (max 0.001 (min 0.999 r))) (cd_fitted (chart_data base))"
proof -
  let ?f = "cd_fitted (chart_data base)"
  have "rCurve p = map (\<lambda>j. KStoR_num (predicted_ks ?f (Some 1) j)) [0 ..< length ?f]"
    using rCurve_prediction[OF assms(4)] depthFactor_baseline[OF assms(1,2)] assms(3) by simp
  also have "\<dots> = map (\<lambda>j. Some (max 0.001 (min 0.999 (?f ! j)))) [0 ..< length ?f]"
    by (rule map_cong) (simp_all add: predicted_baseline)
  also have "\<dots> = map (\<lambda>r. Some (max 0.001 (min 0.999 r))) ?f"
    by (rule nth_equalityI) simp_all
  finally show ?thesis .
qed



lemma map_clamp_id:
  "\<forall>r \<in> set rs. 0.001 \<le> r \<and> r \<le> 0.999 \<Longrightarrow>
     map (\<lambda>r. Some (max 0.001 (min 0.999 r))) rs = map Some (rs :: real list)"
  by (induction rs) (simp_all add: max_def min_def)


section \<open>Prediction under the baseline parameters\<close>

text \<open>
  Claim C3 says that with \<open>exhaustionRate = 70\<close> and \<open>liquorRatio = 10\<close> the predicted
  curve equals the base curve for every base curve. The loop clamps each base value to
  \<open>[0.001, 0.999]\<close> first: a base curve of constant \<open>1\<close> (full transmittance) comes
  back as \<open>0.999\<close>, a difference of \<open>0.001\<close>, and \<open>Y\<close> is \<open>99.9\<close> where the base
  curve itself has \<open>Y = 100\<close>.
\<close>

theorem prediction_baseline_counterexample:
  "cd_fitted (chart_data (simulatedResult
      \<lparr>meta_name = None, data_lambda = [400, 700], data_I_corr = [], data_T = [1, 1], data_A = [0, 0]\<rparr>)) = [1, 1]
   \<and> map_option rCurve (prediction (Some (simulatedResult
        \<lparr>meta_name = None, data_lambda = [400, 700], data_I_corr = [], data_T = [1, 1], data_A = [0, 0]\<rparr>))
        \<lparr>fabricType = ''Cotton'', weight = 100, liquorRatio = Some 10, exhaustionRate = Some 70\<rparr>)
       = Some [Some 0.999, Some 0.999]
   \<and> \<not> \<bar>(0.999 :: real) - 1\<bar> \<le> 0.000001
   \<and> map_option (\<lambda>p. xyz_y (color p)) (prediction (Some (simulatedResult
        \<lparr>meta_name = None, data_lambda = [400, 700], data_I_corr = [], data_T = [1, 1], data_A = [0, 0]\<rparr>))
        \<lparr>fabricType = ''Cotton'', weight = 100, liquorRatio = Some 10, exhaustionRate = Some 70\<rparr>)
       = Some (Some 99.9)
   \<and> xyz_y (reflectanceToColor [400, 700] [Some 1, Some 1]) = Some 100"
proof -
  let ?params = "\<lparr>fabricType = ''Cotton'', weight = 100, liquorRatio = Some 10, exhaustionRate = Some 70\<rparr>"
  let ?base = "simulatedResult
        \<lparr>meta_name = None, data_lambda = [400, 700], data_I_corr = [], data_T = [1, 1], data_A = [0, 0]\<rparr>"
  have f: "cd_fitted (chart_data ?base) = [1, 1]" "cd_lambda (chart_data ?base) = [400, 700]"
    by (simp_all add: simulatedResult_def)
  obtain p where p: "prediction (Some ?base) ?params = Some p" using prediction_Some by blast
  have "rCurve p = map (\<lambda>r. Some (max 0.001 (min 0.999 r))) (cd_fitted (chart_data ?base))"
    by (rule prediction_baseline_curve[OF _ _ _ p]) (simp_all add: f)
  then have r: "rCurve p = map Some [0.999, 0.999]" unfolding f by simp
  have "color p = reflectanceToColor [400, 700] (map Some [0.999, 0.999])"
    using rCurve_prediction[OF p] r f by simp
  moreover have "xyz_y (reflectanceToColor [400, 700] (map Some [0.999, 0.999])) = Some (100 * 0.999)"
    by (rule flat_Y[where c = "0.999"]) (simp_all add: rFactor_fraction)
  ultimately have y: "xyz_y (color p) = Some 99.9" by simp
  have "xyz_y (reflectanceToColor [400, 700] (map Some [1, 1])) = Some (100 * 1)"
    by (rule flat_Y[where c = 1]) (simp_all add: rFactor_fraction)
  then have w: "xyz_y (reflectanceToColor [400, 700] [Some 1, Some 1]) = Some 100" by simp
  show ?thesis using f(1) r y w unfolding p by simp
qed

text \<open>
  Claim C3, amended. With \<open>exhaustionRate = 70\<close> and \<open>liquorRatio = 10\<close> the depth
  factor is \<open>1\<close> and, for a base curve with as many values as wavelengths, every predicted
  value is the base value clamped to \<open>[0.001, 0.999]\<close> (exact arithmetic). When all base
  values lie in \<open>[0.001, 0.999]\<close> the predicted curve is the base curve, and the predicted
  colour is the colour of the base curve.
\<close>

theorem prediction_baseline_reproduces_clamped:
  assumes "exhaustionRate params = Some 70" and "liquorRatio params = Some 10"
    and "length (cd_fitted (chart_data base)) = length (cd_lambda (chart_data base))"
  shows "\<exists>p. prediction (Some base) params = Some p \<and> depthFactor p = Some 1
      \<and> rCurve p = map (\<lambda>r. Some (max 0.001 (min 0.999 r))) (cd_fitted (chart_data base))
      \<and> ((\<forall>r \<in> set (cd_fitted (chart_data base)). 0.001 \<le> r \<and> r \<le> 0.999) \<longrightarrow>
           rCurve p = map Some (cd_fitted (chart_data base))
           \<and> color p = reflectanceToColor (cd_lambda (chart_data base))
                          (map Some (cd_fitted (chart_data base))))"
proof -
  obtain p where p: "prediction (Some base) params = Some p" using prediction_Some by blast
  note r = rCurve_prediction[OF p]
  have c: "rCurve p = map (\<lambda>r. Some (max 0.001 (min 0.999 r))) (cd_fitted (chart_data base))"
    by (rule prediction_baseline_curve[OF assms p])
  have d: "depthFactor p = Some 1" using r depthFactor_baseline[OF assms(1,2)] by simp
  have "rCurve p = map Some (cd_fitted (chart_data base))
        \<and> color p = reflectanceToColor (cd_lambda (chart_data base)) (map Some (cd_fitted (chart_data base)))"
    if "\<forall>r \<in> set (cd_fitted (chart_data base)). 0.001 \<le> r \<and> r \<le> 0.999"
  proof -
    have "rCurve p = map Some (cd_fitted (chart_data base))"
      unfolding c by (rule map_clamp_id[OF that])
    moreover have "color p = reflectanceToColor (cd_lambda (chart_data base)) (rCurve p)"
      using r by blast
    ultimately show ?thesis by simp
  qed
  with p c d show ?thesis by blast
qed

theorem prediction_baseline_reproduces_clamped_witness:
  "exhaustionRate \<lparr>fabricType = ''Cotton'', weight = 100, liquorRatio = Some 10, exhaustionRate = Some 70\<rparr> = Some 70
   \<and> liquorRatio \<lparr>fabricType = ''Cotton'', weight = 100, liquorRatio = Some 10, exhaustionRate = Some 70\<rparr> = Some 10
   \<and> length (cd_fitted (chart_data (simulatedResult
        \<lparr>meta_name = None, data_lambda = [400, 700], data_I_corr = [], data_T = [0.1, 0.01], data_A = [1, 2]\<rparr>)))
     = length (cd_lambda (chart_data (simulatedResult
        \<lparr>meta_name = None, data_lambda = [400, 700], data_I_corr = [], data_T = [0.1, 0.01], data_A = [1, 2]\<rparr>)))
   \<and> (0.001 \<le> (0.1 :: real) \<and> (0.1 :: real) \<le> 0.999) \<and> (0.001 \<le> (0.01 :: real) \<and> (0.01 :: real) \<le> 0.999)
   \<and> (\<exists>p. prediction (Some (simulatedResult
        \<lparr>meta_name = None, data_lambda = [400, 700], data_I_corr = [], data_T = [0.1, 0.01], data_A = [1, 2]\<rparr>))
        \<lparr>fabricType = ''Cotton'', weight = 100, liquorRatio = Some 10, exhaustionRate = Some 70\<rparr> = Some p
        \<and> depthFactor p = Some 1 \<and> rCurve p = [Some 0.1, Some 0.01]
        \<and> color p = reflectanceToColor [400, 700] [Some 0.1, Some 0.01])"
proof -
  let ?params = "\<lparr>fabricType = ''Cotton'', weight = 100, liquorRatio = Some 10, exhaustionRate = Some 70\<rparr>"
  let ?base = "simulatedResult
        \<lparr>meta_name = None, data_lambda = [400, 700], data_I_corr = [], data_T = [0.1, 0.01], data_A = [1, 2]\<rparr>"
  have h: "exhaustionRate ?params = Some 70" "liquorRatio ?params = Some 10"
    "length (cd_fitted (chart_data ?base)) = length (cd_lambda (chart_data ?base))"
    by (simp_all add: simulatedResult_def)
  have f: "cd_fitted (chart_data ?base) = [0.1, 0.01]" "cd_lambda (chart_data ?base) = [400, 700]"
    by (simp_all add: simulatedResult_def)
  have rng: "\<forall>r \<in> set (cd_fitted (chart_data ?base)). 0.001 \<le> r \<and> r \<le> 0.999"
    unfolding f by simp
  from prediction_baseline_reproduces_clamped[OF h] rng
  have "\<exists>p. prediction (Some ?base) ?params = Some p \<and> depthFactor p = Some 1
        \<and> rCurve p = map Some (cd_fitted (chart_data ?base))
        \<and> color p = reflectanceToColor (cd_lambda (chart_data ?base)) (map Some (cd_fitted (chart_data ?base)))"
    by blast
  then have "\<exists>p. prediction (Some ?base) ?params = Some p \<and> depthFactor p = Some 1
        \<and> rCurve p = [Some 0.1, Some 0.01]
        \<and> color p = reflectanceToColor [400, 700] [Some 0.1, Some 0.01]"
    unfolding f by simp
  with h show ?thesis by simp
qed

section \<open>Range of the inverse Kubelka-Munk transform\<close>



section \<open>The depth factor\<close>

text \<open>
  Claim C10. The divisor \<open>ratio\<close> of the depth factor is never zero: a \<open>liquorRatio\<close>
  that is \<open>0\<close> or \<open>NaN\<close> is replaced by \<open>1\<close>. For a finite \<open>exhaustionRate\<close> the
  depth factor is the number \<open>(exhaustionRate / 70) * (10 / ratio)\<close>, which is
  \<open>(exhaustionRate / 70) * (10 / 1)\<close> when \<open>liquorRatio\<close> is falsy.
\<close>

theorem depthFactor_never_divides_by_zero:
  "ratio_of (liquorRatio params) \<noteq> 0
   \<and> (liquorRatio params = Some 0 \<or> liquorRatio params = None \<longrightarrow> ratio_of (liquorRatio params) = 1)
   \<and> (exhaustionRate params = Some e \<longrightarrow>
        depthFactor_of params = Some ((e / 70) * (10 / ratio_of (liquorRatio params))))
   \<and> (exhaustionRate params = Some e \<and> (liquorRatio params = Some 0 \<or> liquorRatio params = None) \<longrightarrow>
        depthFactor_of params = Some ((e / 70) * (10 / 1)))"
  by (auto simp: ratio_of_def depthFactor_of_def Let_def split: option.splits)

theorem depthFactor_never_divides_by_zero_witness:
  "liquorRatio \<lparr>fabricType = ''Cotton'', weight = 100, liquorRatio = Some 0, exhaustionRate = Some 35\<rparr> = Some 0
   \<and> exhaustionRate \<lparr>fabricType = ''Cotton'', weight = 100, liquorRatio = Some 0, exhaustionRate = Some 35\<rparr> = Some 35
   \<and> ratio_of (liquorRatio \<lparr>fabricType = ''Cotton'', weight = 100, liquorRatio = Some 0, exhaustionRate = Some 35\<rparr>) = 1
   \<and> depthFactor_of \<lparr>fabricType = ''Cotton'', weight = 100, liquorRatio = Some 0, exhaustionRate = Some 35\<rparr>
        = Some 5"
  using depthFactor_never_divides_by_zero
    [of "\<lparr>fabricType = ''Cotton'', weight = 100, liquorRatio = Some 0, exhaustionRate = Some 35\<rparr>" 35]
  by simp

section \<open>Concentration analysis: auxiliary facts\<close>

lemma make_components_length: "length (fst (make_components db fs g)) = length fs"
  by (induction fs arbitrary: g) (simp_all add: random_def Let_def split_beta)

lemma make_components_snd: "snd (make_components db fs g) = (\<lambda>k. g (length fs + k))"
  by (induction fs arbitrary: g) (simp_all add: random_def Let_def split_beta)

lemma make_components_nth:
  "i < length fs \<Longrightarrow>
   fst (make_components db fs g) ! i
     = \<lparr>name = display_name db (fs ! i), concentration = 0.1 + g i * 0.7, contribution = 0\<rparr>"
proof (induction fs arbitrary: g i)
  case Nil
  then show ?case by simp
next
  case (Cons f fs)
  show ?case
  proof (cases i)
    case 0
    then show ?thesis by (simp add: random_def Let_def split_beta)
  next
    case (Suc j)
    then have "j < length fs" using Cons.prems by simp
    from Cons.IH[OF this, of "\<lambda>n. g (Suc n)"] show ?thesis
      using Suc by (simp add: random_def Let_def split_beta)
  qed
qed

lemma make_fitted_length: "length (fst (make_fitted vs g)) = length vs"
  by (induction vs arbitrary: g) (simp_all add: random_def Let_def split_beta)

lemma make_fitted_snd: "snd (make_fitted vs g) = (\<lambda>k. g (length vs + k))"
  by (induction vs arbitrary: g) (simp_all add: random_def Let_def split_beta)

lemma make_fitted_nth:
  "i < length vs \<Longrightarrow> fst (make_fitted vs g) ! i = vs ! i * (0.96 + g i * 0.08)"
proof (induction vs arbitrary: g i)
  case Nil
  then show ?case by simp
next
  case (Cons v vs)
  show ?case
  proof (cases i)
    case 0
    then show ?thesis by (simp add: random_def Let_def split_beta)
  next
    case (Suc j)
    then have "j < length vs" using Cons.prems by simp
    from Cons.IH[OF this, of "\<lambda>n. g (Suc n)"] show ?thesis
      using Suc by (simp add: random_def Let_def split_beta)
  qed
qed

lemma make_residual_length: "length (make_residual original fitted) = length original"
  by (simp add: make_residual_def)

lemma make_residual_nth:
  "i < length original \<Longrightarrow> length fitted = length original \<Longrightarrow>
   make_residual original fitted ! i = Some (original ! i - fitted ! i)"
  by (simp add: make_residual_def js_index_def)

lemma totalConc_sum: "totalConc_of cs = (\<Sum>c\<leftarrow>cs. concentration c)"
proof -
  have "foldl (\<lambda>acc c. acc + concentration c) a cs = a + (\<Sum>c\<leftarrow>cs. concentration c)" for a
    by (induction cs arbitrary: a) simp_all
  then show ?thesis by (simp add: totalConc_of_def)
qed

text \<open>The result of a successful call, written with the draws it consumes.\<close>

lemma analyzeConcentration_Inr:
  assumes "db sampleFilename = Some sample"
  shows "analyzeConcentration db g sampleFilename standardFilenames =
    Inr (\<lparr>components = set_contributions (totalConc_of (fst (make_components db standardFilenames g)))
                         (fst (make_components db standardFilenames g)),
          metrics = \<lparr>rmse = 0.0012 + g (length standardFilenames + length (data_A sample)) * 0.0008,
                     residual_norm = 0.015 + g (length standardFilenames + length (data_A sample) + 1) * 0.005\<rparr>,
          chart_data = \<lparr>cd_lambda = data_lambda sample, cd_original = data_A sample,
                        cd_fitted = fst (make_fitted (data_A sample) (\<lambda>k. g (length standardFilenames + k))),
                        cd_residual = make_residual (data_A sample)
                           (fst (make_fitted (data_A sample) (\<lambda>k. g (length standardFilenames + k))))\<rparr>\<rparr>,
         \<lambda>k. g (length standardFilenames + length (data_A sample) + 2 + k))"
  using assms
  by (simp add: analyzeConcentration_def Let_def split_beta make_components_snd make_fitted_snd
      random_def add.assoc add.commute add.left_commute)

lemma analyzeConcentration_Inl:
  "db sampleFilename = None \<Longrightarrow>
   analyzeConcentration db g sampleFilename standardFilenames = Inl SampleDataLost"
  by (simp add: analyzeConcentration_def)

lemma set_contributions_concentration:
  "map concentration (set_contributions t cs) = map concentration cs"
  by (simp add: set_contributions_def)

lemma totalConc_set_contributions: "totalConc_of (set_contributions t cs) = totalConc_of cs"
  by (simp add: totalConc_sum set_contributions_def comp_def)

lemma sum_list_percent:
  "(\<Sum>x\<leftarrow>xs. f x / t * 100) = (\<Sum>x\<leftarrow>xs. f x) / t * (100 :: real)"
  by (induction xs) (simp_all add: algebra_simps add_divide_distrib)

lemma sum_contributions:
  assumes "0 < totalConc_of cs"
  shows "(\<Sum>c\<leftarrow>set_contributions (totalConc_of cs) cs. contribution c) = 100"
proof -
  let ?t = "totalConc_of cs"
  have "(\<Sum>c\<leftarrow>set_contributions ?t cs. contribution c) = (\<Sum>c\<leftarrow>cs. concentration c / ?t * 100)"
    using assms by (simp add: set_contributions_def comp_def)
  also have "\<dots> = (\<Sum>c\<leftarrow>cs. concentration c) / ?t * 100"
    by (rule sum_list_percent)
  also have "\<dots> = 100" using assms by (simp add: totalConc_sum[symmetric])
  finally show ?thesis .
qed

lemma zero_contributions:
  "\<not> 0 < t \<Longrightarrow> \<forall>c \<in> set (set_contributions t cs). contribution c = 0"
  by (simp add: set_contributions_def)

lemma make_components_conc_range:
  assumes "\<forall>n. 0 \<le> g n \<and> g n < 1"
  shows "\<forall>c \<in> set (fst (make_components db fs g)). 0.1 \<le> concentration c \<and> concentration c < 0.8"
proof
  fix c assume "c \<in> set (fst (make_components db fs g))"
  then obtain i where i: "i < length fs" "c = fst (make_components db fs g) ! i"
    by (auto simp: in_set_conv_nth make_components_length)
  have "0 \<le> g i" "g i < 1" using assms by simp_all
  then show "0.1 \<le> concentration c \<and> concentration c < 0.8"
    unfolding i(2) make_components_nth[OF i(1)] by simp
qed

lemma analyzeConcentration_sample:
  "analyzeConcentration db g sampleFilename standardFilenames = Inr (res, g') \<Longrightarrow>
   \<exists>sample. db sampleFilename = Some sample"
  by (cases "db sampleFilename") (simp_all add: analyzeConcentration_def)

lemma make_components_cong:
  assumes "\<forall>k < length fs. g1 k = g2 k"
  shows "fst (make_components db fs g1) = fst (make_components db fs g2)"
proof (rule nth_equalityI)
  show "length (fst (make_components db fs g1)) = length (fst (make_components db fs g2))"
    by (simp add: make_components_length)
next
  fix i assume "i < length (fst (make_components db fs g1))"
  then have i: "i < length fs" by (simp add: make_components_length)
  then show "fst (make_components db fs g1) ! i = fst (make_components db fs g2) ! i"
    using assms by (simp add: make_components_nth)
qed

lemma make_fitted_cong:
  assumes "\<forall>k < length vs. g1 k = g2 k"
  shows "fst (make_fitted vs g1) = fst (make_fitted vs g2)"
proof (rule nth_equalityI)
  show "length (fst (make_fitted vs g1)) = length (fst (make_fitted vs g2))"
    by (simp add: make_fitted_length)
next
  fix i assume "i < length (fst (make_fitted vs g1))"
  then have i: "i < length vs" by (simp add: make_fitted_length)
  then show "fst (make_fitted vs g1) ! i = fst (make_fitted vs g2) ! i"
    using assms by (simp add: make_fitted_nth)
qed

lemma example_run_0:
  "map_sum id fst (analyzeConcentration example_store (const_rng 0) ''sample.spc'' [''std_red.spc''])
    = Inr \<lparr>components = [\<lparr>name = ''red'', concentration = 0.1, contribution = 100\<rparr>],
           metrics = \<lparr>rmse = 0.0012, residual_norm = 0.015\<rparr>,
           chart_data = \<lparr>cd_lambda = [400, 410], cd_original = [1, 2],
                         cd_fitted = [0.96, 1.92], cd_residual = [Some 0.04, Some 0.08]\<rparr>\<rparr>"
  by (simp add: analyzeConcentration_def example_store_def const_rng_def random_def Let_def
      display_name_def totalConc_of_def set_contributions_def make_residual_def js_index_def)

lemma example_run_half:
  "map_sum id fst (analyzeConcentration example_store (const_rng (1 / 2)) ''sample.spc'' [''std_red.spc''])
    = Inr \<lparr>components = [\<lparr>name = ''red'', concentration = 0.45, contribution = 100\<rparr>],
           metrics = \<lparr>rmse = 0.0016, residual_norm = 0.0175\<rparr>,
           chart_data = \<lparr>cd_lambda = [400, 410], cd_original = [1, 2],
                         cd_fitted = [1, 2], cd_residual = [Some 0, Some 0]\<rparr>\<rparr>"
  by (simp add: analyzeConcentration_def example_store_def const_rng_def random_def Let_def
      display_name_def totalConc_of_def set_contributions_def make_residual_def js_index_def)

section \<open>Components of the concentration result\<close>

text \<open>
  Claim C6. In every result that \<open>analyzeConcentration\<close> returns, with \<open>Math.random()\<close>
  drawing from \<open>[0, 1)\<close>: every concentration is non-negative; when the total
  concentration is positive the contributions sum to \<open>100\<close> within \<open>1e-6\<close> (exactly
  \<open>100\<close> in exact arithmetic); when the total is \<open>0\<close> every contribution is \<open>0\<close>.
\<close>

theorem analyzeConcentration_components:
  assumes rng: "\<forall>n. 0 \<le> g n \<and> g n < 1"
    and res: "analyzeConcentration db g sampleFilename standardFilenames = Inr (res, g')"
  shows "(\<forall>c \<in> set (components res). 0 \<le> concentration c)
       \<and> (0 < totalConc_of (components res) \<longrightarrow>
            \<bar>(\<Sum>c\<leftarrow>components res. contribution c) - 100\<bar> \<le> 0.000001)
       \<and> (totalConc_of (components res) = 0 \<longrightarrow> (\<forall>c \<in> set (components res). contribution c = 0))"
proof -
  from analyzeConcentration_sample[OF res] obtain sample where s: "db sampleFilename = Some sample"
    by blast
  let ?cs = "fst (make_components db standardFilenames g)"
  have comps: "components res = set_contributions (totalConc_of ?cs) ?cs"
    using res
    unfolding analyzeConcentration_Inr[where db = db and sampleFilename = sampleFilename, OF s]
    by auto
  have t: "totalConc_of (components res) = totalConc_of ?cs"
    unfolding comps by (rule totalConc_set_contributions)
  have "\<forall>c \<in> set (components res). 0 \<le> concentration c"
  proof
    fix c assume "c \<in> set (components res)"
    then have "concentration c \<in> set (map concentration (components res))" by simp
    then have "concentration c \<in> set (map concentration ?cs)"
      unfolding comps set_contributions_concentration .
    then obtain c' where "c' \<in> set ?cs" "concentration c = concentration c'" by auto
    with make_components_conc_range[OF rng, of db standardFilenames]
    show "0 \<le> concentration c" by fastforce
  qed
  moreover have "\<bar>(\<Sum>c\<leftarrow>components res. contribution c) - 100\<bar> \<le> 0.000001"
    if "0 < totalConc_of (components res)"
  proof -
    have "0 < totalConc_of ?cs" using that unfolding t .
    from sum_contributions[OF this] show ?thesis unfolding comps by simp
  qed
  moreover have "\<forall>c \<in> set (components res). contribution c = 0"
    if "totalConc_of (components res) = 0"
  proof -
    have "\<not> 0 < totalConc_of ?cs" using that unfolding t by simp
    from zero_contributions[OF this] show ?thesis unfolding comps .
  qed
  ultimately show ?thesis by blast
qed

theorem analyzeConcentration_components_witness:
  "(\<forall>n. 0 \<le> const_rng (1 / 2) n \<and> const_rng (1 / 2) n < 1)
   \<and> (\<exists>res g'. analyzeConcentration example_store (const_rng (1 / 2)) ''sample.spc'' [''std_red.spc'']
                   = Inr (res, g')
        \<and> components res = [\<lparr>name = ''red'', concentration = 0.45, contribution = 100\<rparr>]
        \<and> 0 < totalConc_of (components res)
        \<and> \<bar>(\<Sum>c\<leftarrow>components res. contribution c) - 100\<bar> \<le> 0.000001)"
proof -
  let ?g = "const_rng (1 / 2)"
  have rng: "\<forall>n. 0 \<le> ?g n \<and> ?g n < 1" by (simp add: const_rng_def)
  have "\<exists>x. analyzeConcentration example_store ?g ''sample.spc'' [''std_red.spc''] = Inr x"
    by (simp add: analyzeConcentration_def example_store_def Let_def split_beta)
  then obtain res g' where
    run: "analyzeConcentration example_store ?g ''sample.spc'' [''std_red.spc''] = Inr (res, g')"
    by (metis surj_pair)
  have comps: "components res = [\<lparr>name = ''red'', concentration = 0.45, contribution = 100\<rparr>]"
    using example_run_half unfolding run by simp
  have pos: "0 < totalConc_of (components res)" unfolding comps by (simp add: totalConc_of_def)
  from analyzeConcentration_components[OF rng run] pos
  have "\<bar>(\<Sum>c\<leftarrow>components res. contribution c) - 100\<bar> \<le> 0.000001" by blast
  with rng run comps pos show ?thesis by blast
qed

section \<open>The fitted curve of the concentration result\<close>

text \<open>
  Claim C1 says that \<open>fitted\<close> is the linear combination of the standard spectra with the
  returned concentrations, within a relative tolerance of \<open>1e-9\<close>. The local
  \<open>analyzeConcentration\<close> draws the concentrations at random and builds \<open>fitted\<close> from the
  sample alone: at a point where the one standard and the sample both have absorbance
  \<open>1\<close>, with concentration \<open>0.1\<close>, \<open>fitted\<close> is \<open>0.96\<close> where the linear combination
  is \<open>0.1\<close>.
\<close>

theorem analyzeConcentration_fitted_counterexample:
  "map_sum id fst (analyzeConcentration example_store (const_rng 0) ''sample.spc'' [''std_red.spc''])
    = Inr \<lparr>components = [\<lparr>name = ''red'', concentration = 0.1, contribution = 100\<rparr>],
           metrics = \<lparr>rmse = 0.0012, residual_norm = 0.015\<rparr>,
           chart_data = \<lparr>cd_lambda = [400, 410], cd_original = [1, 2],
                         cd_fitted = [0.96, 1.92], cd_residual = [Some 0.04, Some 0.08]\<rparr>\<rparr>
   \<and> map_option data_A (example_store ''std_red.spc'') = Some [1, 1]
   \<and> linear_combination [0.1] [[1, 1]] 0 = 0.1
   \<and> \<not> within_rel_tol 0.000000001 0.96 (linear_combination [0.1] [[1, 1]] 0)"
proof -
  have l: "linear_combination [0.1] [[1, 1]] 0 = 0.1" by (simp add: linear_combination_def)
  have n: "\<not> within_rel_tol 0.000000001 0.96 (linear_combination [0.1] [[1, 1]] 0)"
    unfolding l by (simp add: within_rel_tol_def)
  have a: "map_option data_A (example_store ''std_red.spc'') = Some [1, 1]"
    by (simp add: example_store_def)
  from example_run_0 a l n show ?thesis by blast
qed

text \<open>
  Claim C1, amended. In every result that \<open>analyzeConcentration\<close> returns, \<open>original\<close> is
  the absorbance of the sample, \<open>fitted\<close> and \<open>residual\<close> have one entry for each of its
  points, \<open>fitted[i]\<close> is \<open>original[i] * (0.96 + 0.08 * u)\<close> with \<open>u\<close> the random value
  drawn for that point, and \<open>residual[i]\<close> is \<open>original[i] - fitted[i]\<close>.
\<close>

theorem analyzeConcentration_fitted_perturbs_sample:
  assumes "analyzeConcentration db g sampleFilename standardFilenames = Inr (res, g')"
  shows "\<exists>sample. db sampleFilename = Some sample
     \<and> cd_original (chart_data res) = data_A sample
     \<and> length (cd_fitted (chart_data res)) = length (data_A sample)
     \<and> length (cd_residual (chart_data res)) = length (data_A sample)
     \<and> (\<forall>i < length (data_A sample).
          cd_fitted (chart_data res) ! i
            = data_A sample ! i * (0.96 + g (length standardFilenames + i) * 0.08)
          \<and> cd_residual (chart_data res) ! i
            = Some (data_A sample ! i - cd_fitted (chart_data res) ! i))"
proof -
  from analyzeConcentration_sample[OF assms] obtain sample where s: "db sampleFilename = Some sample"
    by blast
  let ?g = "\<lambda>k. g (length standardFilenames + k)"
  let ?A = "data_A sample"
  let ?f = "fst (make_fitted ?A ?g)"
  note run = analyzeConcentration_Inr[where db = db and sampleFilename = sampleFilename, OF s,
      of g standardFilenames]
  have cd: "chart_data res = \<lparr>cd_lambda = data_lambda sample, cd_original = ?A,
                        cd_fitted = ?f, cd_residual = make_residual ?A ?f\<rparr>"
    using assms unfolding run by auto
  have len: "length ?f = length ?A" by (rule make_fitted_length)
  have "cd_fitted (chart_data res) ! i = ?A ! i * (0.96 + g (length standardFilenames + i) * 0.08)
          \<and> cd_residual (chart_data res) ! i = Some (?A ! i - cd_fitted (chart_data res) ! i)"
    if "i < length ?A" for i
    unfolding cd using make_fitted_nth[OF that, of ?g] make_residual_nth[OF that len] by simp
  then show ?thesis
    using s len unfolding cd by (intro exI[of _ sample]) (simp add: make_residual_length)
qed

theorem analyzeConcentration_fitted_perturbs_sample_witness:
  "(\<exists>res g'. analyzeConcentration example_store (const_rng (1 / 2)) ''sample.spc'' [''std_red.spc''] = Inr (res, g')
      \<and> cd_original (chart_data res) = [1, 2]
      \<and> cd_fitted (chart_data res) = [1 * (0.96 + 1 / 2 * 0.08), 2 * (0.96 + 1 / 2 * 0.08)]
      \<and> cd_residual (chart_data res) = [Some (1 - 1 * (0.96 + 1 / 2 * 0.08)), Some (2 - 2 * (0.96 + 1 / 2 * 0.08))])"
proof -
  let ?db = example_store and ?g = "const_rng (1 / 2)"
  have "\<exists>x. analyzeConcentration ?db ?g ''sample.spc'' [''std_red.spc''] = Inr x"
    by (simp add: analyzeConcentration_def example_store_def Let_def split_beta)
  then obtain res g' where run: "analyzeConcentration ?db ?g ''sample.spc'' [''std_red.spc''] = Inr (res, g')"
    by (metis surj_pair)
  have A: "map_option data_A (example_store ''sample.spc'') = Some [1, 2]"
    by (simp add: example_store_def)
  from analyzeConcentration_fitted_perturbs_sample[OF run] A
  have o: "cd_original (chart_data res) = [1, 2]"
    and lf: "length (cd_fitted (chart_data res)) = 2"
    and lr: "length (cd_residual (chart_data res)) = 2"
    and nth: "\<forall>i < 2. cd_fitted (chart_data res) ! i = [1, 2] ! i * (0.96 + ?g (1 + i) * 0.08)
          \<and> cd_residual (chart_data res) ! i = Some ([1, 2] ! i - cd_fitted (chart_data res) ! i)"
    by auto
  have f0: "cd_fitted (chart_data res) ! 0 = 1 * (0.96 + 1 / 2 * 0.08)"
    and f1: "cd_fitted (chart_data res) ! 1 = 2 * (0.96 + 1 / 2 * 0.08)"
    and r0: "cd_residual (chart_data res) ! 0 = Some (1 - cd_fitted (chart_data res) ! 0)"
    and r1: "cd_residual (chart_data res) ! 1 = Some (2 - cd_fitted (chart_data res) ! 1)"
    using nth by (simp_all add: const_rng_def)
  have f: "cd_fitted (chart_data res) = [1 * (0.96 + 1 / 2 * 0.08), 2 * (0.96 + 1 / 2 * 0.08)]"
    using lf f0 f1 by (intro nth_equalityI) (auto simp: less_Suc_eq numeral_2_eq_2)
  have r: "cd_residual (chart_data res) = [Some (1 - 1 * (0.96 + 1 / 2 * 0.08)), Some (2 - 2 * (0.96 + 1 / 2 * 0.08))]"
    using lr r0 r1 f0 f1 by (intro nth_equalityI) (auto simp: less_Suc_eq numeral_2_eq_2)
  from run o f r show ?thesis by blast
qed

section \<open>Determinism of the concentration analysis\<close>

text \<open>
  Claim C5 says that two calls with the same sample and the same standards return the same
  result. The result also depends on the values that \<open>Math.random()\<close> returns during
  the call: with the same store, sample and standard, a source that returns \<open>0\<close> and one
  that returns \<open>0.5\<close> give different results.
\<close>

theorem analyzeConcentration_determinism_counterexample:
  "map_sum id fst (analyzeConcentration example_store (const_rng 0) ''sample.spc'' [''std_red.spc''])
   \<noteq> map_sum id fst (analyzeConcentration example_store (const_rng (1 / 2)) ''sample.spc'' [''std_red.spc''])"
  unfolding example_run_0 example_run_half by simp

text \<open>
  Claim C5, amended. The result of \<open>analyzeConcentration\<close> (a value or the error) is a
  function of the store, the sample name, the standard names and the values that
  \<open>Math.random()\<close> returns during the call: two calls on the same store with the same names
  whose random sources agree on the draws the call takes return identical results.
\<close>

theorem analyzeConcentration_determined_by_draws:
  assumes "\<forall>k < draws_needed db sampleFilename standardFilenames. g1 k = g2 k"
  shows "map_sum id fst (analyzeConcentration db g1 sampleFilename standardFilenames)
       = map_sum id fst (analyzeConcentration db g2 sampleFilename standardFilenames)"
proof (cases "db sampleFilename")
  case None
  then show ?thesis by (simp add: analyzeConcentration_Inl)
next
  case (Some sample)
  let ?n = "length standardFilenames" and ?m = "length (data_A sample)"
  have eq: "\<forall>k < ?n + ?m + 2. g1 k = g2 k"
    using assms Some by (simp add: draws_needed_def)
  have c: "fst (make_components db standardFilenames g1) = fst (make_components db standardFilenames g2)"
    by (rule make_components_cong) (use eq in simp)
  have f: "fst (make_fitted (data_A sample) (\<lambda>k. g1 (?n + k)))
         = fst (make_fitted (data_A sample) (\<lambda>k. g2 (?n + k)))"
    by (rule make_fitted_cong) (use eq in simp)
  have m: "g1 (?n + ?m) = g2 (?n + ?m)" "g1 (Suc (?n + ?m)) = g2 (Suc (?n + ?m))"
    using eq by simp_all
  show ?thesis
    unfolding analyzeConcentration_Inr[where db = db and sampleFilename = sampleFilename, OF Some]
    by (simp add: c f m)
qed

theorem analyzeConcentration_determined_by_draws_witness:
  "draws_needed example_store ''sample.spc'' [''std_red.spc''] = 5
   \<and> map_sum id fst (analyzeConcentration example_store (const_rng (1 / 2)) ''sample.spc'' [''std_red.spc''])
     = map_sum id fst (analyzeConcentration example_store
         (\<lambda>k. if k < 5 then const_rng (1 / 2) k else 0) ''sample.spc'' [''std_red.spc''])"
proof -
  have d: "draws_needed example_store ''sample.spc'' [''std_red.spc''] = 5"
    by (simp add: draws_needed_def example_store_def)
  have "\<forall>k < draws_needed example_store ''sample.spc'' [''std_red.spc''].
          const_rng (1 / 2) k = (\<lambda>k. if k < 5 then const_rng (1 / 2) k else 0) k"
    unfolding d by simp
  from analyzeConcentration_determined_by_draws[OF this] d show ?thesis by blast
qed

end
